theory Spec2Isabelle
  imports Complex_Main
begin

section \<open>The benchmarking script \<^verbatim>\<open>neo4j/bench.py\<close>\<close>

text \<open>
  The script is read with the semantics of Python 3 (\<^verbatim>\<open>floor\<close> and \<^verbatim>\<open>ceil\<close> return
  integers, \<^verbatim>\<open>/\<close> is true division). Python numbers that the script computes with are
  modelled exactly: a float is a \<^typ>\<open>real\<close>, an integer an \<^typ>\<open>int\<close>. The rounding of
  IEEE doubles is left out, except in \<open>percentile_double\<close>, which is \<open>percentile\<close> with the
  rounding written out, for the one property whose truth depends on it.

  An exception is a value: a function that can raise returns a sum, \<open>Inl\<close> the exception.
  What the script meets outside itself (the subprocess, the database driver, the clock)
  is an input of the model. What it does to the outside (printing, starting and joining
  processes) is a list of events, in order.
\<close>

subsection \<open>Exceptions and sequence indexing\<close>

text \<open>
  The exceptions the script can meet. \<open>SystemExit\<close> is what \<^verbatim>\<open>sys.exit\<close> raises;
  \<open>ExternalError\<close> stands for whatever a collaborator outside the file raises (the
  database driver, the subprocess call).
\<close>

datatype py_error =
    IndexError
  | ValueError
  | ZeroDivisionError
  | SystemExit int
  | ExternalError string

text \<open>\<^verbatim>\<open>xs[i]\<close> on a Python list: a negative index counts from the end, an index out of
  range raises \<^verbatim>\<open>IndexError\<close>.\<close>

definition getitem :: "'a list \<Rightarrow> int \<Rightarrow> py_error + 'a" where
  "getitem xs i =
     (let n = int (length xs); j = (if i < 0 then i + n else i)
      in if 0 \<le> j \<and> j < n then Inr (xs ! nat j) else Inl IndexError)"

text \<open>\<^verbatim>\<open>int(x)\<close> on a float truncates towards zero.\<close>

definition py_int :: "real \<Rightarrow> int" where
  "py_int x = (if 0 \<le> x then \<lfloor>x\<rfloor> else \<lceil>x\<rceil>)"

subsection \<open>\<^verbatim>\<open>percentile\<close> (lines 63--70)\<close>

text \<open>
  \<^verbatim>\<open>
  def percentile(values, nth):
      index = (len(values) - 1) * nth
      lo = floor(index)
      hi = ceil(index)
      if lo == hi:
          return values[int(index)]
      else:
          return values[lo] * (hi - index) + values[hi] * (index - lo)
  \<close>
  Each of the three subscripts is a \<^const>\<open>getitem\<close>, so every \<^verbatim>\<open>IndexError\<close> the
  function can raise is a branch of the model.
\<close>

definition percentile :: "real list \<Rightarrow> real \<Rightarrow> py_error + real" where
  "percentile values nth' =
     (let index = of_int (int (length values) - 1) * nth';
          lo = \<lfloor>index\<rfloor>;
          hi = \<lceil>index\<rceil>
      in if lo = hi then getitem values (py_int index)
         else (case getitem values lo of
                 Inl e \<Rightarrow> Inl e
               | Inr vlo \<Rightarrow>
                   (case getitem values hi of
                      Inl e \<Rightarrow> Inl e
                    | Inr vhi \<Rightarrow>
                        Inr (vlo * (of_int hi - index) + vhi * (index - of_int lo)))))"

text \<open>
  The estimator in the words of the specification: \<open>idx = p \<sqdot> (N - 1)\<close>,
  \<open>lo = floor idx\<close>, \<open>hi = ceil idx\<close>; the value at \<open>idx\<close> when \<open>lo = hi\<close>, otherwise
  the interpolation between the two neighbouring ranks. It reads the list with plain
  \<open>!\<close> and has no error branch.
\<close>

definition spec_estimate :: "real list \<Rightarrow> real \<Rightarrow> real" where
  "spec_estimate values p =
     (let idx = p * real (length values - 1);
          lo = \<lfloor>idx\<rfloor>;
          hi = \<lceil>idx\<rceil>
      in if lo = hi then values ! nat \<lfloor>idx\<rfloor>
         else values ! nat lo * (of_int hi - idx) + values ! nat hi * (idx - of_int lo))"

text \<open>
  The interpolation at a real rank \<open>x\<close>, separated from the computation of the rank:
  an auxiliary function of the proofs below.
\<close>

definition interp :: "real list \<Rightarrow> real \<Rightarrow> real" where
  "interp vs x =
     (if \<lfloor>x\<rfloor> = \<lceil>x\<rceil> then vs ! nat \<lfloor>x\<rfloor>
      else vs ! nat \<lfloor>x\<rfloor> * (of_int \<lceil>x\<rceil> - x) + vs ! nat \<lceil>x\<rceil> * (x - of_int \<lfloor>x\<rfloor>))"

subsection \<open>Strings and integers\<close>

text \<open>
  A string is a list of 8-bit characters: the code points below 256 of a Python 3
  \<^verbatim>\<open>str\<close>, the bytes of a \<^verbatim>\<open>bytes\<close> object.
\<close>

definition startswith :: "string \<Rightarrow> string \<Rightarrow> bool" where
  "startswith s pre = (take (length pre) s = pre)"

text \<open>\<^verbatim>\<open>s.split(sep)\<close> with a separator of one character.\<close>

fun py_split :: "char \<Rightarrow> string \<Rightarrow> string list" where
  "py_split sep [] = [[]]"
| "py_split sep (c # cs) =
     (if c = sep then [] # py_split sep cs
      else (case py_split sep cs of [] \<Rightarrow> [[c]] | w # ws \<Rightarrow> (c # w) # ws))"

text \<open>\<^verbatim>\<open>bytes.strip()\<close> removes ASCII white space at both ends.\<close>

definition is_space :: "char \<Rightarrow> bool" where
  "is_space c = (c \<in> set [CHR 0x20, CHR 0x09, CHR 0x0A, CHR 0x0D, CHR 0x0B, CHR 0x0C])"

definition strip :: "string \<Rightarrow> string" where
  "strip s = rev (dropWhile is_space (rev (dropWhile is_space s)))"

text \<open>\<^verbatim>\<open>os.path.basename\<close>: what follows the last slash.\<close>

definition basename :: "string \<Rightarrow> string" where
  "basename p = rev (takeWhile (\<lambda>c. c \<noteq> CHR ''/'') (rev p))"

text \<open>\<^verbatim>\<open>"%d" % n\<close>: the decimal numeral of an integer.\<close>

fun decimal :: "nat \<Rightarrow> string" where
  "decimal n =
     (if n < 10 then [''0123456789'' ! n]
      else decimal (n div 10) @ [''0123456789'' ! (n mod 10)])"

definition format_d :: "int \<Rightarrow> string" where
  "format_d n = (if n < 0 then CHR ''-'' # decimal (nat (- n)) else decimal (nat n))"

text \<open>
  \<^verbatim>\<open>int(s)\<close> on a string: optional white space around an optional sign and a run of
  decimal digits, in which single underscores may stand between digits; anything else
  raises \<^verbatim>\<open>ValueError\<close>. The white space that \<^verbatim>\<open>int\<close> skips is the ASCII white space and,
  beyond ASCII, the Unicode white space (here \<^verbatim>\<open>\x85\<close> and \<^verbatim>\<open>\xa0\<close>); the separators
  \<^verbatim>\<open>\x1c\<close> to \<^verbatim>\<open>\x1f\<close> are not skipped. A numeral of more digits than
  \<^verbatim>\<open>sys.get_int_max_str_digits()\<close>, by default 4300, raises \<^verbatim>\<open>ValueError\<close> as well (CPython
  3.11, and the security releases of the versions before it); the sign, the underscores
  and the white space do not count as digits, leading zeros do.
\<close>

definition int_max_str_digits :: nat where
  "int_max_str_digits = 4300"

definition is_int_space :: "char \<Rightarrow> bool" where
  "is_int_space c =
     (c \<in> set [CHR 0x09, CHR 0x0A, CHR 0x0B, CHR 0x0C, CHR 0x0D, CHR 0x20, CHR 0x85, CHR 0xA0])"

definition is_digit :: "char \<Rightarrow> bool" where
  "is_digit c = (c \<in> set ''0123456789'')"

definition digit_value :: "char \<Rightarrow> nat" where
  "digit_value c = of_char c - 48"

text \<open>A run of digits with single underscores between digits: \<^verbatim>\<open>1_000\<close>, but neither
  \<^verbatim>\<open>_1\<close>, \<^verbatim>\<open>1_\<close> nor \<^verbatim>\<open>1__0\<close>.\<close>

fun digit_run :: "string \<Rightarrow> bool" where
  "digit_run [] = False"
| "digit_run [c] = is_digit c"
| "digit_run (c # u # cs) =
     (is_digit c \<and> (if u = CHR ''_'' then digit_run cs else digit_run (u # cs)))"

definition int_of_str :: "string \<Rightarrow> py_error + int" where
  "int_of_str s =
     (let t = rev (dropWhile is_int_space (rev (dropWhile is_int_space s)));
          negative = (case t of [] \<Rightarrow> False | c # _ \<Rightarrow> c = CHR ''-'');
          ds = (case t of [] \<Rightarrow> [] | c # r \<Rightarrow> if c = CHR ''-'' \<or> c = CHR ''+'' then r else t);
          n = int (foldl (\<lambda>n c. 10 * n + digit_value c) 0 (filter is_digit ds))
      in if digit_run ds \<and> length (filter is_digit ds) \<le> int_max_str_digits
         then Inr (if negative then - n else n)
         else Inl ValueError)"

text \<open>
  \<^verbatim>\<open>repr(s)\<close> of a string, which \<^verbatim>\<open>"%r" % s\<close> inserts: the text between quotes (double
  quotes when it holds a single quote and no double quote), with the backslash, the
  chosen quote and the characters that are not printable escaped.
\<close>

definition repr_char :: "char \<Rightarrow> char \<Rightarrow> string" where
  "repr_char quote c =
     (let n = (of_char c :: nat) in
      if c = CHR 0x5C then [CHR 0x5C, CHR 0x5C]
      else if c = quote then [CHR 0x5C, quote]
      else if c = CHR 0x09 then [CHR 0x5C, CHR ''t'']
      else if c = CHR 0x0A then [CHR 0x5C, CHR ''n'']
      else if c = CHR 0x0D then [CHR 0x5C, CHR ''r'']
      else if n < 0x20 \<or> n = 0x7F \<or> (0x80 \<le> n \<and> n \<le> 0xA0) \<or> n = 0xAD
        then [CHR 0x5C, CHR ''x'', ''0123456789abcdef'' ! (n div 16), ''0123456789abcdef'' ! (n mod 16)]
      else [c])"

definition repr :: "string \<Rightarrow> string" where
  "repr s =
     (let quote = (if CHR 0x27 \<in> set s \<and> CHR 0x22 \<notin> set s then CHR 0x22 else CHR 0x27)
      in [quote] @ concat (map (repr_char quote) s) @ [quote])"

text \<open>\<^verbatim>\<open>range(n)\<close>: empty when \<open>n\<close> is not positive.\<close>

definition py_range :: "int \<Rightarrow> nat list" where
  "py_range n = [0..<nat n]"

text \<open>A list comprehension whose element expression can raise.\<close>

fun for_each :: "('a \<Rightarrow> py_error + 'b) \<Rightarrow> 'a list \<Rightarrow> py_error + 'b list" where
  "for_each f [] = Inr []"
| "for_each f (x # xs) =
     (case f x of
        Inl e \<Rightarrow> Inl e
      | Inr y \<Rightarrow> (case for_each f xs of Inl e \<Rightarrow> Inl e | Inr ys \<Rightarrow> Inr (y # ys)))"

subsection \<open>Latency samples and the driver's session\<close>

record latency =
  overall :: real
  network :: real
  wait :: real

record session =
  bench :: "latency list"

text \<open>
  Modelled from the spec: the driver's session (\<^verbatim>\<open>GraphDatabase.driver(..., bench=True).session()\<close>)
  is not among the sources. A new session has recorded no sample; a call of
  \<^verbatim>\<open>session.run\<close> that succeeds records one latency sample, appended to
  \<^verbatim>\<open>session.bench\<close>; a call that fails raises and records nothing. What a call does,
  fail or take a measured time, is an input of the model.
\<close>

definition new_session :: session where
  "new_session = \<lparr>bench = []\<rparr>"

definition session_run :: "py_error + latency \<Rightarrow> session \<Rightarrow> py_error + session" where
  "session_run outcome s =
     (case outcome of
        Inl e \<Rightarrow> Inl e
      | Inr l \<Rightarrow> Inr (s\<lparr>bench := bench s @ [l]\<rparr>))"

subsection \<open>Shared arrays\<close>

text \<open>
  \<^verbatim>\<open>Array("d", n)\<close>: \<open>n\<close> doubles in shared memory, all zero; a negative size raises
  \<^verbatim>\<open>ValueError\<close>. An assignment to a slot out of range raises \<^verbatim>\<open>IndexError\<close> and the
  array keeps its size.
\<close>

definition Array_d :: "int \<Rightarrow> py_error + real list" where
  "Array_d n = (if n < 0 then Inl ValueError else Inr (replicate (nat n) 0))"

definition setitem :: "'a list \<Rightarrow> nat \<Rightarrow> 'a \<Rightarrow> py_error + 'a list" where
  "setitem xs i v = (if i < length xs then Inr (xs[i := v]) else Inl IndexError)"

subsection \<open>The worker: class \<^verbatim>\<open>GAP\<close> (lines 144--165)\<close>

record GAP =
  self_run_count :: int
  self_statement :: string
  self_overall :: "real list"
  self_network :: "real list"
  self_wait :: "real list"
  self_session :: session

text \<open>
  \<^verbatim>\<open>GAP.__init__\<close> stores its arguments and opens the session, which can fail:
  \<open>connect\<close> is \<open>Some e\<close> when the driver raises \<open>e\<close>.
\<close>

definition GAP_init ::
  "py_error option \<Rightarrow> int \<Rightarrow> string \<Rightarrow> real list \<Rightarrow> real list \<Rightarrow> real list
   \<Rightarrow> py_error + GAP" where
  "GAP_init connect run_count statement overall' network' wait' =
     (case connect of
        Some e \<Rightarrow> Inl e
      | None \<Rightarrow>
          Inr \<lparr>self_run_count = run_count, self_statement = statement,
               self_overall = overall', self_network = network', self_wait = wait',
               self_session = new_session\<rparr>)"

text \<open>
  \<^verbatim>\<open>
  def run(self):
      ...
      for i in range(run_count):
          run(statement)
      bench = session.bench
      for i, latency in enumerate(bench):
          self.overall[i] = latency.overall
          self.network[i] = latency.network
          self.wait[i] = latency.wait
  \<close>
  The first loop: \<open>invoke i\<close> is what the \<open>i\<close>-th call of \<^verbatim>\<open>session.run\<close> does. The
  session is an object, so what it recorded before an exception stays recorded.
\<close>

fun run_statement :: "(nat \<Rightarrow> py_error + latency) \<Rightarrow> nat list \<Rightarrow> session
    \<Rightarrow> session \<times> py_error option" where
  "run_statement invoke [] s = (s, None)"
| "run_statement invoke (i # is) s =
     (case session_run (invoke i) s of
        Inl e \<Rightarrow> (s, Some e)
      | Inr s' \<Rightarrow> run_statement invoke is s')"

text \<open>The second loop. The arrays are shared memory: a slot written before an exception
  stays written.\<close>

fun copy_bench :: "(nat \<times> latency) list \<Rightarrow> GAP \<Rightarrow> GAP \<times> py_error option" where
  "copy_bench [] self = (self, None)"
| "copy_bench ((i, l) # rest) self =
     (case setitem (self_overall self) i (overall l) of
        Inl e \<Rightarrow> (self, Some e)
      | Inr ov \<Rightarrow>
          (case setitem (self_network self) i (network l) of
             Inl e \<Rightarrow> (self\<lparr>self_overall := ov\<rparr>, Some e)
           | Inr nw \<Rightarrow>
               (case setitem (self_wait self) i (wait l) of
                  Inl e \<Rightarrow> (self\<lparr>self_overall := ov, self_network := nw\<rparr>, Some e)
                | Inr wt \<Rightarrow>
                    copy_bench rest
                      (self\<lparr>self_overall := ov, self_network := nw, self_wait := wt\<rparr>))))"

definition GAP_run :: "(nat \<Rightarrow> py_error + latency) \<Rightarrow> GAP \<Rightarrow> GAP \<times> py_error option" where
  "GAP_run invoke self =
     (case run_statement invoke (py_range (self_run_count self)) (self_session self) of
        (s, Some e) \<Rightarrow> (self\<lparr>self_session := s\<rparr>, Some e)
      | (s, None) \<Rightarrow> copy_bench (enumerate 0 (bench s)) (self\<lparr>self_session := s\<rparr>))"

subsection \<open>Example inputs of the worker\<close>

definition example_latency :: "nat \<Rightarrow> latency" where
  "example_latency i = \<lparr>overall = 5 + real i, network = 3, wait = 2\<rparr>"

definition example_failing_invoke :: "nat \<Rightarrow> py_error + latency" where
  "example_failing_invoke i =
     (if i = 0 then Inr (example_latency 0) else Inl (ExternalError ''connection lost''))"

definition example_worker :: GAP where
  "example_worker =
     \<lparr>self_run_count = 2, self_statement = ''RETURN 1'',
      self_overall = [0, 0], self_network = [0, 0], self_wait = [0, 0],
      self_session = new_session\<rparr>"

subsection \<open>Effects of the main process\<close>

text \<open>
  What the main process does to the outside, in order: the lines it prints and the
  worker processes it starts and joins. A line whose text is fixed is a \<open>Print\<close> with
  that text; a line that formats a float is an event that carries the numbers, the
  digits of a formatted float being left out of the model. \<open>Traceback\<close> is the report of
  an uncaught exception on standard error.
\<close>

datatype event =
    Print string
  | PrintRuns int int
  | PrintThroughput real
  | PrintRequests int real
  | PrintRow bool real real real real
  | Start nat
  | Join nat
  | Traceback py_error

text \<open>A computation of the main process: the events so far, and an exception or a
  result.\<close>

type_synonym 'a io = "event list \<times> (py_error + 'a)"

definition ret :: "'a \<Rightarrow> 'a io" where
  "ret x = ([], Inr x)"

definition emit :: "event list \<Rightarrow> unit io" where
  "emit evs = (evs, Inr ())"

definition lift :: "py_error + 'a \<Rightarrow> 'a io" where
  "lift r = ([], r)"

definition then_do :: "'a io \<Rightarrow> ('a \<Rightarrow> 'b io) \<Rightarrow> 'b io" where
  "then_do m f =
     (case m of
        (tr, Inl e) \<Rightarrow> (tr, Inl e)
      | (tr, Inr x) \<Rightarrow> (case f x of (tr', r) \<Rightarrow> (tr @ tr', r)))"

text \<open>A \<^verbatim>\<open>for\<close> loop whose body can raise: the first exception ends the loop.\<close>

fun for_loop :: "('a \<Rightarrow> unit io) \<Rightarrow> 'a list \<Rightarrow> unit io" where
  "for_loop body [] = ret ()"
| "for_loop body (x # xs) = then_do (body x) (\<lambda>_. for_loop body xs)"

subsection \<open>\<^verbatim>\<open>print_bench\<close> (lines 77--99)\<close>

definition rule_line :: string where
  "rule_line = ''------------------------------------------------------''"

definition percentiles :: "real list" where
  "percentiles = [0, 10, 20, 30, 40, 50, 60, 70, 80, 90, 95, 98, 99, 99.5, 99.9, 100]"

text \<open>The body of the loop: three calls of \<^const>\<open>percentile\<close>, then one printed row, which is
  emphasised for 50, 90, 99 and 99.9.\<close>

definition print_row :: "real list \<Rightarrow> real list \<Rightarrow> real list \<Rightarrow> real \<Rightarrow> unit io" where
  "print_row overall_latencies network_latencies wait_latencies p =
     then_do (lift (percentile overall_latencies (p / 100))) (\<lambda>overall_latency.
     then_do (lift (percentile network_latencies (p / 100))) (\<lambda>network_latency.
     then_do (lift (percentile wait_latencies (p / 100))) (\<lambda>wait_latency.
     emit [PrintRow (p \<in> set [50, 90, 99, 99.9]) p
             overall_latency network_latency wait_latency])))"

definition print_bench :: "real list \<Rightarrow> real list \<Rightarrow> real list \<Rightarrow> unit io" where
  "print_bench overall_latencies network_latencies wait_latencies =
     then_do (emit [Print rule_line,
                    Print '' percentile |   overall   |   network   |     wait    '',
                    Print ''------------|-------------|-------------|-------------'']) (\<lambda>_.
     for_loop (print_row overall_latencies network_latencies wait_latencies) percentiles)"

subsection \<open>\<^verbatim>\<open>GAP.run_all\<close> (lines 117--142)\<close>

text \<open>
  What one call of \<^verbatim>\<open>run_all\<close> meets outside the script: whether the session of
  worker \<open>i\<close> can be opened, what the \<open>j\<close>-th invocation of worker \<open>i\<close> does, and the time
  that \<^verbatim>\<open>perf_counter\<close> measures between the first start and the last join.
\<close>

record batch =
  session_opening :: "nat \<Rightarrow> py_error option"
  invocation :: "nat \<Rightarrow> nat \<Rightarrow> py_error + latency"
  elapsed :: real

text \<open>
  The Python method returns nothing. The model returns what the method hands to its
  last prints: the request count \<^verbatim>\<open>process_run_count\<close>, the elapsed time and the three
  sequences given to \<^verbatim>\<open>print_bench\<close>. The specification calls this the Aggregate Result.
\<close>

record aggregate =
  sample_count :: int
  elapsed_seconds :: real
  overall_samples :: "real list"
  network_samples :: "real list"
  wait_samples :: "real list"

text \<open>\<^verbatim>\<open>a / b\<close> with a float divisor.\<close>

definition true_div :: "real \<Rightarrow> real \<Rightarrow> py_error + real" where
  "true_div a b = (if b = 0 then Inl ZeroDivisionError else Inr (a / b))"

text \<open>
  The workers run in processes of their own, each on its own three arrays, between its
  \<open>Start\<close> and its \<open>Join\<close>. An exception in a worker ends that process and is not raised
  in the main process, whose \<^verbatim>\<open>join\<close> returns all the same. After the joins the shared
  arrays hold what each worker's \<^const>\<open>GAP_run\<close> left in them. Starting and joining a
  process is taken to succeed; how the processes interleave is not modelled, since no
  two of them share an array. The three lists of arrays and the list of workers have
  \<^verbatim>\<open>process_count\<close> elements each, so the subscripts \<open>!\<close> below are in range.
\<close>

definition run_all :: "batch \<Rightarrow> int \<Rightarrow> int \<Rightarrow> string \<Rightarrow> aggregate io" where
  "run_all b process_count run_count statement =
     then_do (emit [Print rule_line, Print ('' '' @ statement)]) (\<lambda>_.
     then_do (lift (for_each (\<lambda>_. Array_d run_count) (py_range process_count))) (\<lambda>overall'.
     then_do (lift (for_each (\<lambda>_. Array_d run_count) (py_range process_count))) (\<lambda>network'.
     then_do (lift (for_each (\<lambda>_. Array_d run_count) (py_range process_count))) (\<lambda>wait'.
     then_do (lift (for_each
         (\<lambda>i. GAP_init (session_opening b i) run_count statement (overall' ! i) (network' ! i) (wait' ! i))
         (py_range process_count))) (\<lambda>processes.
     then_do (emit (map Start (py_range process_count) @ map Join (py_range process_count))) (\<lambda>_.
     let joined = map (\<lambda>i. fst (GAP_run (invocation b i) (processes ! i))) (py_range process_count);
         t = elapsed b;
         process_run_count = process_count * run_count
     in
     then_do (lift (true_div (of_int process_run_count) t)) (\<lambda>tx_per_second.
     then_do (emit [PrintRuns run_count process_count, PrintThroughput tx_per_second,
                    PrintRequests process_run_count t]) (\<lambda>_.
     let result = \<lparr>sample_count = process_run_count, elapsed_seconds = t,
                    overall_samples = sort (concat (map self_overall joined)),
                    network_samples = sort (concat (map self_network joined)),
                    wait_samples = sort (concat (map self_wait joined))\<rparr>
     in
     then_do (print_bench (overall_samples result) (network_samples result)
                (wait_samples result)) (\<lambda>_.
     then_do (emit [Print '''']) (\<lambda>_.
     ret result))))))))))"

text \<open>An example batch: every session opens, every invocation succeeds.\<close>

definition example_batch :: batch where
  "example_batch =
     \<lparr>session_opening = (\<lambda>i. None),
      invocation = (\<lambda>i j. Inr \<lparr>overall = 4 + real i - real j, network = 2 + real j, wait = 1\<rparr>),
      elapsed = 8\<rparr>"

text \<open>Worker \<open>i\<close> of a batch after its run, which it began on three regions of zeros and
  a new session.\<close>

definition joined_worker :: "batch \<Rightarrow> int \<Rightarrow> string \<Rightarrow> nat \<Rightarrow> GAP" where
  "joined_worker b run_count statement i =
     fst (GAP_run (invocation b i)
       \<lparr>self_run_count = run_count, self_statement = statement,
        self_overall = replicate (nat run_count) 0,
        self_network = replicate (nat run_count) 0,
        self_wait = replicate (nat run_count) 0,
        self_session = new_session\<rparr>)"

subsection \<open>\<^verbatim>\<open>processors\<close> (lines 106--112)\<close>

text \<open>The argument is what \<^verbatim>\<open>subprocess.check_output("cat /proc/cpuinfo", shell=True)\<close>
  does: raise, or return the bytes of the file.\<close>

definition processors :: "py_error + string \<Rightarrow> py_error + int" where
  "processors check_output =
     (case check_output of
        Inl e \<Rightarrow> Inl e
      | Inr out \<Rightarrow>
          Inr (foldl (\<lambda>p line. if startswith line ''processor'' then p + 1 else p) 0
                 (py_split (CHR 0x0A) (strip out))))"

subsection \<open>\<^verbatim>\<open>USAGE\<close> and \<^verbatim>\<open>help_\<close> (lines 43--60, 168--169)\<close>

text \<open>The lines of \<^verbatim>\<open>USAGE.format(script=script)\<close>.\<close>

definition usage_lines :: "string \<Rightarrow> string list" where
  "usage_lines script =
     [''Usage: '' @ script @ '' ['' @ [CHR 0xAB] @ ''options'' @ [CHR 0xBB] @ ''] '' @ [CHR 0xAB]
        @ ''statement'' @ [CHR 0xBB] @ '' [ '' @ [CHR 0xAB] @ ''statement'' @ [CHR 0xBB] @ '' ... ]'',
      '''',
      ''Test performance of one or more Cypher statements against a'',
      ''Neo4j server.'',
      '''',
      ''Options:'',
      ''  -? --help              display this help text'',
      ''  -x --times COUNT       number of times to execute each statement'',
      ''                         (default 2500)'',
      ''  -p --parallels VALUES  comma separated list of parallel values'',
      ''                         (default: 1,2,4,8,16)'',
      '''',
      ''Environment:'',
      ''  NEO4J_URI - base URI of Neo4j database, e.g. neo4j://localhost'',
      '''',
      ''Report bugs to nigel@neotechnology.com'']"

definition USAGE :: "string \<Rightarrow> string" where
  "USAGE script = concat (map (\<lambda>line. line @ [CHR 0x0A]) (usage_lines script))"

definition help_fn :: "string \<Rightarrow> unit io" where
  "help_fn script = emit [Print (USAGE script)]"

subsection \<open>\<^verbatim>\<open>main\<close> (lines 172--217)\<close>

definition py_raise :: "py_error \<Rightarrow> 'a io" where
  "py_raise e = ([], Inl e)"

text \<open>The three variables that the option loop sets.\<close>

record config =
  cfg_run_count :: int
  cfg_statements :: "string list"
  cfg_parallels :: "int list"

text \<open>\<^verbatim>\<open>list(2 ** n for n in range(int(ceil(log(16, 2)) + 1)))\<close>\<close>

definition default_parallels :: "int list" where
  "default_parallels = map (\<lambda>n. 2 ^ n) (py_range (\<lceil>log 2 16\<rceil> + 1))"

definition initial_config :: config where
  "initial_config =
     \<lparr>cfg_run_count = 10000, cfg_statements = [], cfg_parallels = default_parallels\<rparr>"

text \<open>
  \<^verbatim>\<open>
  while args:
      arg = args.pop(0)
      if arg.startswith("-"):
          if arg in ("-h", "--help"):
              help_(script=basename(script))
              sys.exit(0)
          elif arg in ("-x", "--times"):
              run_count = int(args.pop(0))
          elif arg in ("-p", "--parallels"):
              parallels = list(map(int, args.pop(0).split(",")))
          else:
              print("Unknown option %r" % arg)
              sys.exit(1)
      else:
          statements.append(arg)
  \<close>
  \<^verbatim>\<open>args.pop(0)\<close> on the empty list raises \<^verbatim>\<open>IndexError\<close>. The three tuples of
  option names are constants of the model.
\<close>

definition help_flags :: "string list" where
  "help_flags = [''-h'', ''--help'']"

definition times_flags :: "string list" where
  "times_flags = [''-x'', ''--times'']"

definition parallels_flags :: "string list" where
  "parallels_flags = [''-p'', ''--parallels'']"

fun parse_args :: "string \<Rightarrow> string list \<Rightarrow> config \<Rightarrow> config io" where
  "parse_args script [] cfg = ret cfg"
| "parse_args script (arg # args) cfg =
     (if startswith arg ''-'' then
        if arg \<in> set help_flags then
          then_do (help_fn (basename script)) (\<lambda>_. py_raise (SystemExit 0))
        else if arg \<in> set times_flags then
          (case args of
             [] \<Rightarrow> py_raise IndexError
           | v # rest \<Rightarrow>
               (case int_of_str v of
                  Inl e \<Rightarrow> py_raise e
                | Inr n \<Rightarrow> parse_args script rest (cfg\<lparr>cfg_run_count := n\<rparr>)))
        else if arg \<in> set parallels_flags then
          (case args of
             [] \<Rightarrow> py_raise IndexError
           | v # rest \<Rightarrow>
               (case for_each int_of_str (py_split (CHR '','') v) of
                  Inl e \<Rightarrow> py_raise e
                | Inr ps \<Rightarrow> parse_args script rest (cfg\<lparr>cfg_parallels := ps\<rparr>)))
        else
          then_do (emit [Print (''Unknown option '' @ repr arg)]) (\<lambda>_. py_raise (SystemExit 1))
      else parse_args script args (cfg\<lparr>cfg_statements := cfg_statements cfg @ [arg]\<rparr>))"

text \<open>The lines printed before the options are read (lines 174--185).\<close>

definition banner :: "int \<Rightarrow> event list" where
  "banner processor_count =
     [Print ''Neo4j Benchmarking Tool for Python'',
      Print (''Copyright (c) 2002-2015 '' @ [CHR 0x22] @ ''Neo Technology,'' @ [CHR 0x22]),
      Print ''Network Engine for Objects in Lund AB [http://neotechnology.com]'',
      Print ''Report bugs to nigel@neotechnology.com'',
      Print '''',
      Print (''This machine has '' @ format_d processor_count @ '' processors''),
      Print '''',
      Print ''Latency measurements:'',
      Print ''  overall = time between start and end of method call'',
      Print ''  network = time between start of send and end of receive'',
      Print ''  wait    = time between end of send and start of receive'',
      Print '''']"

text \<open>The statements used when none is given (lines 212--214).\<close>

definition default_statements :: "int \<Rightarrow> string list" where
  "default_statements node_id =
     map (\<lambda>n. ''unwind(range(1, '' @ format_d n @ '')) AS z RETURN z'') [0, 1, 10, 100]
     @ [''MATCH (a) WHERE id(a) = '' @ format_d node_id @ '' RETURN a'',
        ''MATCH (a:Thing) WHERE a.foo = '' @ [CHR 0x27] @ ''bar'' @ [CHR 0x27] @ '' RETURN a'']"

text \<open>
  What a run of the script meets outside: the outcome of the \<^verbatim>\<open>cat\<close> subprocess, the
  outcome of the set-up queries of the default statements (an exception, or the node id
  that \<^verbatim>\<open>results[0][0]\<close> yields), and the batch met by the call of \<^verbatim>\<open>run_all\<close> for the
  \<open>i\<close>-th statement and the \<open>j\<close>-th parallelism value.
\<close>

record env =
  check_output_cpuinfo :: "py_error + string"
  default_node_id :: "py_error + int"
  batch_of :: "nat \<Rightarrow> nat \<Rightarrow> batch"

text \<open>Lines 173--214: everything before the two loops. The result holds the run count,
  the statements and the parallelism values that the loops use.\<close>

definition main_setup :: "env \<Rightarrow> string list \<Rightarrow> config io" where
  "main_setup e argv =
     then_do (lift (processors (check_output_cpuinfo e))) (\<lambda>processor_count.
     then_do (emit (banner processor_count)) (\<lambda>_.
     then_do (lift (getitem argv 0)) (\<lambda>script.
     then_do (parse_args script (drop 1 argv) initial_config) (\<lambda>cfg.
     if cfg_statements cfg = [] then
       then_do (emit [Print ''No statements specified, using defaults'']) (\<lambda>_.
       then_do (lift (default_node_id e)) (\<lambda>node_id.
       ret (cfg\<lparr>cfg_statements := default_statements node_id\<rparr>)))
     else ret cfg))))"

text \<open>
  \<^verbatim>\<open>
  for statement in statements:
      for process_count in parallels:
          GAP.run_all(process_count, run_count, statement)
  \<close>
\<close>

definition main_loop :: "env \<Rightarrow> config \<Rightarrow> unit io" where
  "main_loop e cfg =
     for_loop (\<lambda>(i, statement).
        for_loop (\<lambda>(j, process_count).
           then_do (run_all (batch_of e i j) process_count (cfg_run_count cfg) statement)
             (\<lambda>_. ret ()))
          (enumerate 0 (cfg_parallels cfg)))
       (enumerate 0 (cfg_statements cfg))"

definition main :: "env \<Rightarrow> string list \<Rightarrow> unit io" where
  "main e argv = then_do (main_setup e argv) (main_loop e)"

text \<open>
  \<^verbatim>\<open>if __name__ == "__main__": main()\<close>. The interpreter ends the process with status 0
  when \<^verbatim>\<open>main\<close> returns and with the status given to \<^verbatim>\<open>sys.exit\<close>; any other exception
  that leaves \<^verbatim>\<open>main\<close> is reported as a traceback and the status is 1.
\<close>

definition script_run :: "env \<Rightarrow> string list \<Rightarrow> event list \<times> int" where
  "script_run e argv =
     (case main e argv of
        (tr, Inr _) \<Rightarrow> (tr, 0)
      | (tr, Inl (SystemExit status)) \<Rightarrow> (tr, status)
      | (tr, Inl err) \<Rightarrow> (tr @ [Traceback err], 1))"

definition example_env :: env where
  "example_env =
     \<lparr>check_output_cpuinfo = Inr (''processor : 0'' @ [CHR 0x0A] @ ''model name : x'' @ [CHR 0x0A]
         @ ''processor : 1'' @ [CHR 0x0A]),
      default_node_id = Inr 7,
      batch_of = (\<lambda>i j. example_batch)\<rparr>"

subsection \<open>Auxiliary notions of the statements below\<close>

text \<open>A character that \<^const>\<open>repr\<close> copies as it is when the string holds no single
  quote: printable ASCII other than the single quote and the backslash.\<close>

definition plain_char :: "char \<Rightarrow> bool" where
  "plain_char c =
     (0x20 \<le> (of_char c :: nat) \<and> (of_char c :: nat) < 0x7F \<and> c \<noteq> CHR 0x27 \<and> c \<noteq> CHR 0x5C)"

text \<open>
  The order of the calls of \<^verbatim>\<open>run_all\<close> in the words of the specification: for each
  statement, for each parallelism value. An entry holds the positions of the statement
  and of the parallelism value in their lists, the statement and the value.
\<close>

definition schedule :: "string list \<Rightarrow> int list \<Rightarrow> (nat \<times> nat \<times> string \<times> int) list" where
  "schedule statements parallels =
     concat (map (\<lambda>(i, statement).
                map (\<lambda>(j, process_count). (i, j, statement, process_count))
                  (enumerate 0 parallels))
              (enumerate 0 statements))"

text \<open>The summary lines of a trace: the run count and the process count of each.\<close>

fun printed_runs :: "event list \<Rightarrow> (int \<times> int) list" where
  "printed_runs [] = []"
| "printed_runs (PrintRuns run_count process_count # evs) =
     (run_count, process_count) # printed_runs evs"
| "printed_runs (_ # evs) = printed_runs evs"

subsection \<open>\<^verbatim>\<open>percentile\<close> on IEEE doubles\<close>

text \<open>
  The samples of the script and the fractions \<^verbatim>\<open>p / 100\<close> are doubles. A double is
  modelled by the real number it denotes, and an arithmetic operation on doubles yields
  the double nearest to the exact result, a tie going to the even significand.
  \<open>binade n x\<close> is the exponent \<open>e\<close> with \<open>2\<^sup>e \<le> x < 2\<^sup>e\<^sup>+\<^sup>1\<close> of a positive \<open>x\<close>, found in
  at most \<open>n\<close> steps; a double has 53 significant bits. Overflow, subnormal numbers,
  infinities and NaN are not modelled.
\<close>

fun binade :: "nat \<Rightarrow> real \<Rightarrow> int" where
  "binade 0 x = 0"
| "binade (Suc n) x =
     (if 2 \<le> x then binade n (x / 2) + 1
      else if x < 1 then binade n (2 * x) - 1
      else 0)"

definition pow2 :: "int \<Rightarrow> real" where
  "pow2 k = (if 0 \<le> k then 2 ^ nat k else 1 / 2 ^ nat (- k))"

definition round_half_even :: "real \<Rightarrow> int" where
  "round_half_even x =
     (let f = \<lfloor>x\<rfloor>; d = x - of_int f
      in if d < 1 / 2 then f
         else if 1 / 2 < d then f + 1
         else if even f then f else f + 1)"

definition to_double :: "real \<Rightarrow> real" where
  "to_double x =
     (if x = 0 then 0
      else let ulp = pow2 (binade 1100 \<bar>x\<bar> - 52)
           in of_int (round_half_even (x / ulp)) * ulp)"

text \<open>\<^verbatim>\<open>percentile\<close> with every product, difference and sum passed through \<open>rnd\<close>.\<close>

definition percentile_rounded :: "(real \<Rightarrow> real) \<Rightarrow> real list \<Rightarrow> real \<Rightarrow> py_error + real" where
  "percentile_rounded rnd values nth' =
     (let index = rnd (of_int (int (length values) - 1) * nth');
          lo = \<lfloor>index\<rfloor>;
          hi = \<lceil>index\<rceil>
      in if lo = hi then getitem values (py_int index)
         else (case getitem values lo of
                 Inl e \<Rightarrow> Inl e
               | Inr vlo \<Rightarrow>
                   (case getitem values hi of
                      Inl e \<Rightarrow> Inl e
                    | Inr vhi \<Rightarrow>
                        Inr (rnd (rnd (vlo * rnd (of_int hi - index))
                                  + rnd (vhi * rnd (index - of_int lo)))))))"

definition percentile_double :: "real list \<Rightarrow> real \<Rightarrow> py_error + real" where
  "percentile_double = percentile_rounded to_double"

text \<open>The doubles that Python writes \<^verbatim>\<open>0.1\<close> and \<^verbatim>\<open>0.3\<close>.\<close>

definition double_0_1 :: real where
  "double_0_1 = 3602879701896397 / 36028797018963968"

definition double_0_3 :: real where
  "double_0_3 = 5404319552844595 / 18014398509481984"


section \<open>Properties of \<^const>\<open>percentile\<close>\<close>

lemma getitem_in_range:
  "0 \<le> i \<Longrightarrow> i < int (length xs) \<Longrightarrow> getitem xs i = Inr (xs ! nat i)"
  by (simp add: getitem_def Let_def)

lemma getitem_Nil: "getitem [] i = Inl IndexError"
  by (simp add: getitem_def Let_def)

lemma index_eq:
  "vs \<noteq> [] \<Longrightarrow>
   of_int (int (length vs) - 1) * p = p * real (length vs - 1)"
  by (cases vs) simp_all

lemma index_nonneg:
  "0 \<le> p \<Longrightarrow> 0 \<le> p * real (length vs - 1)"
  by simp

lemma index_le:
  assumes "p \<le> 1"
  shows "p * real (length vs - 1) \<le> real (length vs - 1)"
proof -
  have "p * real (length vs - 1) \<le> 1 * real (length vs - 1)"
    using assms by (intro mult_right_mono) simp_all
  then show ?thesis by simp
qed

lemma floor_index_bounds:
  assumes "vs \<noteq> []" "0 \<le> p" "p \<le> 1"
  shows "0 \<le> \<lfloor>p * real (length vs - 1)\<rfloor>"
    and "\<lfloor>p * real (length vs - 1)\<rfloor> < int (length vs)"
proof -
  have "0 \<le> p * real (length vs - 1)"
    using assms(2) by (rule index_nonneg)
  then show "0 \<le> \<lfloor>p * real (length vs - 1)\<rfloor>"
    by (simp only: zero_le_floor)
  have "\<lfloor>p * real (length vs - 1)\<rfloor> \<le> \<lfloor>real (length vs - 1)\<rfloor>"
    using index_le [OF assms(3)] by (rule floor_mono)
  also have "\<dots> = int (length vs - 1)" by simp
  also have "\<dots> < int (length vs)" using assms(1) by (cases vs) simp_all
  finally show "\<lfloor>p * real (length vs - 1)\<rfloor> < int (length vs)" .
qed

lemma ceiling_index_bounds:
  assumes "vs \<noteq> []" "0 \<le> p" "p \<le> 1"
  shows "0 \<le> \<lceil>p * real (length vs - 1)\<rceil>"
    and "\<lceil>p * real (length vs - 1)\<rceil> < int (length vs)"
proof -
  have "0 \<le> p * real (length vs - 1)"
    using assms(2) by (rule index_nonneg)
  then have "0 \<le> \<lfloor>p * real (length vs - 1)\<rfloor>"
    by (simp only: zero_le_floor)
  also have "\<dots> \<le> \<lceil>p * real (length vs - 1)\<rceil>" by (rule floor_le_ceiling)
  finally show "0 \<le> \<lceil>p * real (length vs - 1)\<rceil>" .
  have "\<lceil>p * real (length vs - 1)\<rceil> \<le> \<lceil>real (length vs - 1)\<rceil>"
    using index_le [OF assms(3)] by (rule ceiling_mono)
  also have "\<dots> = int (length vs - 1)" by simp
  also have "\<dots> < int (length vs)" using assms(1) by (cases vs) simp_all
  finally show "\<lceil>p * real (length vs - 1)\<rceil> < int (length vs)" .
qed

lemma percentile_spec_estimate:
  assumes "vs \<noteq> []" "0 \<le> p" "p \<le> 1"
  shows "percentile vs p = Inr (spec_estimate vs p)"
proof -
  define idx where "idx = p * real (length vs - 1)"
  have idx: "of_int (int (length vs) - 1) * p = idx"
    unfolding idx_def using assms(1) by (rule index_eq)
  have "0 \<le> idx"
    unfolding idx_def using assms(2) by (rule index_nonneg)
  then have trunc: "py_int idx = \<lfloor>idx\<rfloor>"
    unfolding py_int_def by (simp only: if_True)
  have lo: "getitem vs \<lfloor>idx\<rfloor> = Inr (vs ! nat \<lfloor>idx\<rfloor>)"
    unfolding idx_def using floor_index_bounds [OF assms] by (rule getitem_in_range)
  have hi: "getitem vs \<lceil>idx\<rceil> = Inr (vs ! nat \<lceil>idx\<rceil>)"
    unfolding idx_def using ceiling_index_bounds [OF assms] by (rule getitem_in_range)
  have "percentile vs p =
      (if \<lfloor>idx\<rfloor> = \<lceil>idx\<rceil> then Inr (vs ! nat \<lfloor>idx\<rfloor>)
       else Inr (vs ! nat \<lfloor>idx\<rfloor> * (of_int \<lceil>idx\<rceil> - idx)
                 + vs ! nat \<lceil>idx\<rceil> * (idx - of_int \<lfloor>idx\<rfloor>)))"
    unfolding percentile_def Let_def idx trunc lo hi by simp
  also have "\<dots> = Inr (spec_estimate vs p)"
    unfolding spec_estimate_def Let_def idx_def [symmetric] by simp
  finally show ?thesis .
qed

lemma spec_estimate_interp: "spec_estimate vs p = interp vs (p * real (length vs - 1))"
  by (simp add: spec_estimate_def interp_def Let_def)

lemma ceiling_floor_cases: "\<lceil>x::real\<rceil> = \<lfloor>x\<rfloor> \<or> \<lceil>x\<rceil> = \<lfloor>x\<rfloor> + 1"
  by (simp add: ceiling_altdef)

lemma convex_between:
  fixes a b w :: real
  assumes "a \<le> b" "0 \<le> w" "w \<le> 1"
  shows "a \<le> a * (1 - w) + b * w" and "a * (1 - w) + b * w \<le> b"
proof -
  have "0 \<le> (b - a) * w" using assms by simp
  then show "a \<le> a * (1 - w) + b * w" by (simp add: algebra_simps)
  have "0 \<le> (b - a) * (1 - w)" using assms by simp
  then show "a * (1 - w) + b * w \<le> b" by (simp add: algebra_simps)
qed

lemma interp_between:
  assumes "sorted vs" "0 \<le> x" "\<lceil>x\<rceil> < int (length vs)"
  shows "vs ! nat \<lfloor>x\<rfloor> \<le> interp vs x" and "interp vs x \<le> vs ! nat \<lceil>x\<rceil>"
proof -
  have le: "vs ! nat \<lfloor>x\<rfloor> \<le> vs ! nat \<lceil>x\<rceil>"
    using assms by (intro sorted_nth_mono) (simp_all add: nat_mono nat_less_iff)
  consider "\<lceil>x\<rceil> = \<lfloor>x\<rfloor>" | "\<lceil>x\<rceil> = \<lfloor>x\<rfloor> + 1" "\<lceil>x\<rceil> \<noteq> \<lfloor>x\<rfloor>"
    using ceiling_floor_cases [of x] by blast
  then have "vs ! nat \<lfloor>x\<rfloor> \<le> interp vs x \<and> interp vs x \<le> vs ! nat \<lceil>x\<rceil>"
  proof cases
    case 1
    then show ?thesis by (simp add: interp_def)
  next
    case 2
    define w where "w = x - of_int \<lfloor>x\<rfloor>"
    have w: "0 \<le> w" "w \<le> 1" unfolding w_def by linarith+
    have hi: "of_int \<lceil>x\<rceil> - x = 1 - w" unfolding w_def using 2(1) by simp
    have "interp vs x = vs ! nat \<lfloor>x\<rfloor> * (1 - w) + vs ! nat \<lceil>x\<rceil> * w"
      using 2(2) by (simp add: interp_def hi w_def)
    then show ?thesis using convex_between [OF le w] by simp
  qed
  then show "vs ! nat \<lfloor>x\<rfloor> \<le> interp vs x" and "interp vs x \<le> vs ! nat \<lceil>x\<rceil>" by simp_all
qed

lemma interp_mono:
  assumes "sorted vs" "0 \<le> x" "x \<le> y" "\<lceil>y\<rceil> < int (length vs)"
  shows "interp vs x \<le> interp vs y"
proof (cases "\<lceil>x\<rceil> \<le> \<lfloor>y\<rfloor>")
  case True
  have cx: "\<lceil>x\<rceil> < int (length vs)"
    using ceiling_mono [OF assms(3)] assms(4) by linarith
  have "interp vs x \<le> vs ! nat \<lceil>x\<rceil>"
    using assms(1,2) cx by (rule interp_between)
  also have "\<dots> \<le> vs ! nat \<lfloor>y\<rfloor>"
    using assms(1) 
  proof (rule sorted_nth_mono)
    show "nat \<lceil>x\<rceil> \<le> nat \<lfloor>y\<rfloor>" using True by (rule nat_mono)
    have "\<lfloor>y\<rfloor> \<le> \<lceil>y\<rceil>" by (rule floor_le_ceiling)
    moreover have "0 \<le> \<lfloor>y\<rfloor>" using assms(2,3) by simp
    ultimately show "nat \<lfloor>y\<rfloor> < length vs" using assms(4) by linarith
  qed
  also have "\<dots> \<le> interp vs y"
    using assms(1) _ assms(4) by (rule interp_between) (use assms in linarith)
  finally show ?thesis .
next
  case False
  have fl: "\<lfloor>x\<rfloor> \<le> \<lfloor>y\<rfloor>" using assms(3) by (rule floor_mono)
  have cl: "\<lceil>x\<rceil> \<le> \<lceil>y\<rceil>" using assms(3) by (rule ceiling_mono)
  have lo: "\<lfloor>y\<rfloor> = \<lfloor>x\<rfloor>" and hx: "\<lceil>x\<rceil> = \<lfloor>x\<rfloor> + 1" and hy: "\<lceil>y\<rceil> = \<lfloor>x\<rfloor> + 1"
    using False fl cl ceiling_floor_cases [of x] ceiling_floor_cases [of y] by linarith+
  define a where "a = vs ! nat \<lfloor>x\<rfloor>"
  define b where "b = vs ! nat (\<lfloor>x\<rfloor> + 1)"
  have ab: "a \<le> b"
    unfolding a_def b_def using assms(1)
    by (rule sorted_nth_mono) (use assms(2,4) hy in \<open>simp_all add: nat_less_iff nat_mono\<close>)
  have ix: "interp vs x = a * (of_int (\<lfloor>x\<rfloor> + 1) - x) + b * (x - of_int \<lfloor>x\<rfloor>)"
    unfolding interp_def a_def b_def hx by simp
  have iy: "interp vs y = a * (of_int (\<lfloor>x\<rfloor> + 1) - y) + b * (y - of_int \<lfloor>x\<rfloor>)"
    unfolding interp_def a_def b_def hy lo by simp
  have "0 \<le> (b - a) * (y - x)" using ab assms(3) by simp
  then show ?thesis unfolding ix iy by (simp add: algebra_simps)
qed

subsection \<open>The algorithm\<close>

text \<open>
  Claim C1. For a non-empty ascending-sorted sequence \<open>vs\<close> of \<open>N\<close> values and a fraction
  \<open>p\<close> in \<open>[0, 1]\<close>, \<^const>\<open>percentile\<close> returns (it does not raise) the estimate of the
  specification: with \<open>idx = p \<sqdot> (N - 1)\<close>, \<open>lo = floor idx\<close> and \<open>hi = ceil idx\<close>, the
  value \<open>vs[idx]\<close> when \<open>lo = hi\<close> and \<open>vs[lo] \<sqdot> (hi - idx) + vs[hi] \<sqdot> (idx - lo)\<close>
  otherwise. In particular \<open>percentile [10, 20, 30, 40] 0.5 = 25\<close>. The sortedness of the
  input plays no part in the proof.
\<close>

theorem percentile_algorithm:
  assumes "vs \<noteq> []" and "sorted vs" and "0 \<le> p" and "p \<le> 1"
  shows "percentile vs p = Inr (spec_estimate vs p)
       \<and> percentile [10, 20, 30, 40] 0.5 = Inr 25"
proof
  show "percentile vs p = Inr (spec_estimate vs p)"
    using assms(1,3,4) by (rule percentile_spec_estimate)
  show "percentile [10, 20, 30, 40] 0.5 = Inr 25"
    by (simp add: percentile_def Let_def getitem_def)
qed

theorem percentile_algorithm_witness:
  "[1, 2, 4] \<noteq> ([] :: real list) \<and> sorted [1, 2, 4 :: real] \<and> (0::real) \<le> 3/4 \<and> (3/4::real) \<le> 1
   \<and> percentile [1, 2, 4] (3/4) = Inr 3 \<and> spec_estimate [1, 2, 4] (3/4) = 3"
proof -
  have h: "[1, 2, 4] \<noteq> ([] :: real list)" "sorted [1, 2, 4 :: real]" "(0::real) \<le> 3/4" "(3/4::real) \<le> 1"
    by simp_all
  have e: "spec_estimate [1, 2, 4] (3/4) = 3"
    by (simp add: spec_estimate_def Let_def)
  from percentile_algorithm [OF h] h e show ?thesis by simp
qed

subsection \<open>The end points and the one-element sequence\<close>

text \<open>
  Claim C4. For a non-empty sequence \<open>vs\<close> of \<open>N\<close> values, \<open>percentile vs 0 = vs[0]\<close> and
  \<open>percentile vs 1 = vs[N - 1]\<close>; and \<open>percentile [x] p = x\<close> for every \<open>p\<close> (in
  particular for every \<open>p\<close> in \<open>[0, 1]\<close>).
\<close>

theorem percentile_endpoints:
  assumes "vs \<noteq> []"
  shows "percentile vs 0 = Inr (vs ! 0)
       \<and> percentile vs 1 = Inr (vs ! (length vs - 1))
       \<and> percentile [x] p = Inr x"
proof -
  have lo: "percentile vs 0 = Inr (vs ! 0)"
    using assms by (simp add: percentile_def py_int_def getitem_def Let_def)
  have hi: "percentile vs 1 = Inr (vs ! (length vs - 1))"
    using assms by (simp add: percentile_def py_int_def getitem_def Let_def nat_diff_distrib)
  have one: "percentile [x] p = Inr x"
    by (simp add: percentile_def py_int_def getitem_def Let_def)
  from lo hi one show ?thesis by simp
qed

theorem percentile_endpoints_witness:
  "[3, 5, 8] \<noteq> ([] :: real list) \<and> percentile [3, 5, 8] 0 = Inr 3 \<and> percentile [3, 5, 8] 1 = Inr 8
   \<and> percentile [7] (2/5) = Inr 7"
proof -
  have h: "[3, 5, 8] \<noteq> ([] :: real list)" by simp
  from percentile_endpoints [OF h, of 7 "2/5"] h show ?thesis by simp
qed

subsection \<open>Index safety\<close>

text \<open>
  Claim C5. \<^const>\<open>percentile\<close> fails on the empty sequence (with \<^verbatim>\<open>IndexError\<close>, whatever
  the fraction). On a non-empty sequence and a fraction \<open>p\<close> in \<open>[0, 1]\<close> each of the three
  subscripts \<^verbatim>\<open>int(index)\<close>, \<^verbatim>\<open>lo\<close> and \<^verbatim>\<open>hi\<close> lies in \<open>0 .. N - 1\<close>, and the function
  returns a value: the error branch is not reached.
\<close>

theorem percentile_index_safety:
  assumes "vs \<noteq> []" and "0 \<le> p" and "p \<le> 1"
  shows "percentile [] q = Inl IndexError
       \<and> (let index = of_int (int (length vs) - 1) * p
          in 0 \<le> py_int index \<and> py_int index < int (length vs)
           \<and> 0 \<le> \<lfloor>index\<rfloor> \<and> \<lfloor>index\<rfloor> < int (length vs)
           \<and> 0 \<le> \<lceil>index\<rceil> \<and> \<lceil>index\<rceil> < int (length vs))
       \<and> (\<exists>r. percentile vs p = Inr r)"
proof -
  define idx where "idx = p * real (length vs - 1)"
  have idx: "of_int (int (length vs) - 1) * p = idx"
    unfolding idx_def using assms(1) by (rule index_eq)
  have "0 \<le> idx"
    unfolding idx_def using assms(2) by (rule index_nonneg)
  then have trunc: "py_int idx = \<lfloor>idx\<rfloor>"
    unfolding py_int_def by (simp only: if_True)
  have lo: "0 \<le> \<lfloor>idx\<rfloor>" "\<lfloor>idx\<rfloor> < int (length vs)"
    unfolding idx_def using assms by (rule floor_index_bounds)+
  have hi: "0 \<le> \<lceil>idx\<rceil>" "\<lceil>idx\<rceil> < int (length vs)"
    unfolding idx_def using assms by (rule ceiling_index_bounds)+
  have empty: "percentile [] q = Inl IndexError"
    by (simp add: percentile_def Let_def getitem_Nil)
  have ok: "\<exists>r. percentile vs p = Inr r"
    using percentile_spec_estimate [OF assms] by blast
  show ?thesis
    unfolding Let_def idx trunc using empty lo hi ok by blast
qed

theorem percentile_index_safety_witness:
  "[2, 3, 5] \<noteq> ([] :: real list) \<and> (0::real) \<le> 3/4 \<and> (3/4::real) \<le> 1
   \<and> percentile [] (3/4) = Inl IndexError
   \<and> \<lceil>of_int (int (length [2, 3, 5 :: real]) - 1) * (3/4 :: real)\<rceil> < int (length [2, 3, 5 :: real])
   \<and> percentile [2, 3, 5] (3/4) = Inr 4"
proof -
  have h: "[2, 3, 5] \<noteq> ([] :: real list)" "(0::real) \<le> 3/4" "(3/4::real) \<le> 1"
    by simp_all
  have e: "percentile [2, 3, 5] (3/4) = Inr 4"
    by (simp add: percentile_def Let_def getitem_def)
  from percentile_index_safety [OF h, of "3/4"] h e show ?thesis
    by (simp add: Let_def)
qed

subsection \<open>Monotonicity\<close>

text \<open>
  Claim C10, as amended. In exact arithmetic, which is what \<^const>\<open>percentile\<close> computes with
  (Python does so when the values and the fraction are integers or \<^verbatim>\<open>Fraction\<close>s): for a
  non-empty ascending-sorted sequence and fractions \<open>p \<le> q\<close> in \<open>[0, 1]\<close>, both calls return,
  the estimate at \<open>p\<close> is at most the estimate at \<open>q\<close>, and both lie between the first and
  the last value of the sequence.
\<close>

theorem percentile_monotone:
  assumes "vs \<noteq> []" and "sorted vs" and "0 \<le> p" and "p \<le> q" and "q \<le> 1"
  shows "\<exists>a b. percentile vs p = Inr a \<and> percentile vs q = Inr b
             \<and> vs ! 0 \<le> a \<and> a \<le> b \<and> b \<le> vs ! (length vs - 1)"
proof -
  define x where "x = p * real (length vs - 1)"
  define y where "y = q * real (length vs - 1)"
  have p1: "p \<le> 1" and q0: "0 \<le> q" using assms by linarith+
  have x0: "0 \<le> x" unfolding x_def using assms(3) by (rule index_nonneg)
  have xy: "x \<le> y" unfolding x_def y_def using assms(4) by (intro mult_right_mono) simp_all
  have cy: "\<lceil>y\<rceil> < int (length vs)"
    unfolding y_def using assms(1) q0 assms(5) by (rule ceiling_index_bounds)
  have cx: "\<lceil>x\<rceil> < int (length vs)"
    unfolding x_def using assms(1,3) p1 by (rule ceiling_index_bounds)
  have a: "percentile vs p = Inr (interp vs x)"
    using percentile_spec_estimate [OF assms(1,3) p1] by (simp add: spec_estimate_interp x_def)
  have b: "percentile vs q = Inr (interp vs y)"
    using percentile_spec_estimate [OF assms(1) q0 assms(5)] by (simp add: spec_estimate_interp y_def)
  have mono: "interp vs x \<le> interp vs y"
    using assms(2) x0 xy cy by (rule interp_mono)
  have "vs ! 0 \<le> vs ! nat \<lfloor>x\<rfloor>"
    using assms(2)
  proof (rule sorted_nth_mono)
    show "0 \<le> nat \<lfloor>x\<rfloor>" by simp
    have "\<lfloor>x\<rfloor> \<le> \<lceil>x\<rceil>" by (rule floor_le_ceiling)
    then show "nat \<lfloor>x\<rfloor> < length vs" using cx x0 by linarith
  qed
  also have "\<dots> \<le> interp vs x"
    using assms(2) x0 cx by (rule interp_between)
  finally have low: "vs ! 0 \<le> interp vs x" .
  have "interp vs y \<le> vs ! nat \<lceil>y\<rceil>"
    using assms(2) _ cy by (rule interp_between) (use x0 xy in linarith)
  also have "\<dots> \<le> vs ! (length vs - 1)"
    using assms(2)
  proof (rule sorted_nth_mono)
    show "nat \<lceil>y\<rceil> \<le> length vs - 1" using cy by linarith
    show "length vs - 1 < length vs" using assms(1) by simp
  qed
  finally have high: "interp vs y \<le> vs ! (length vs - 1)" .
  from a b low mono high show ?thesis by blast
qed

theorem percentile_monotone_witness:
  "[10, 20, 30, 40] \<noteq> ([] :: real list) \<and> sorted [10, 20, 30, 40 :: real]
   \<and> (0::real) \<le> 1/4 \<and> (1/4::real) \<le> 1/2 \<and> (1/2::real) \<le> 1
   \<and> percentile [10, 20, 30, 40] (1/4) = Inr (35/2)
   \<and> percentile [10, 20, 30, 40] (1/2) = Inr 25
   \<and> (\<exists>a b. percentile [10, 20, 30, 40] (1/4) = Inr a \<and> percentile [10, 20, 30, 40] (1/2) = Inr b
          \<and> 10 \<le> a \<and> a \<le> b \<and> b \<le> 40)"
proof -
  have h: "[10, 20, 30, 40] \<noteq> ([] :: real list)" "sorted [10, 20, 30, 40 :: real]"
    "(0::real) \<le> 1/4" "(1/4::real) \<le> 1/2" "(1/2::real) \<le> 1"
    by simp_all
  have e: "percentile [10, 20, 30, 40] (1/4) = Inr (35/2)"
    "percentile [10, 20, 30, 40] (1/2) = Inr 25"
    by (simp_all add: percentile_def Let_def getitem_def)
  have "\<exists>a b. percentile [10, 20, 30, 40] (1/4) = Inr a \<and> percentile [10, 20, 30, 40] (1/2) = Inr b
          \<and> 10 \<le> a \<and> a \<le> b \<and> b \<le> 40"
    using percentile_monotone [OF h] by simp
  with h e show ?thesis by blast
qed

subsection \<open>Monotonicity fails on doubles\<close>

lemma binade_numeral:
  "binade (numeral k) x =
     (if 2 \<le> x then binade (pred_numeral k) (x / 2) + 1
      else if x < 1 then binade (pred_numeral k) (2 * x) - 1
      else 0)"
  by (simp add: numeral_eq_Suc)

lemma percentile_rounded_exact: "percentile_rounded (\<lambda>x. x) vs p = percentile vs p"
  by (simp add: percentile_rounded_def percentile_def)

lemma double_literals:
  "to_double (1 / 10) = double_0_1" "to_double (3 / 10) = double_0_3"
  by (simp_all add: to_double_def binade_numeral pow2_def round_half_even_def Let_def
      double_0_1_def double_0_3_def)

text \<open>The properties of the end point 0, of the one-element sequence and of the example
  of the specification do not depend on the rounding.\<close>

lemma percentile_double_zero:
  "vs \<noteq> [] \<Longrightarrow> percentile_double vs 0 = Inr (vs ! 0)"
  by (simp add: percentile_double_def percentile_rounded_def to_double_def py_int_def
      getitem_def Let_def)

lemma percentile_double_singleton: "percentile_double [x] p = Inr x"
  by (simp add: percentile_double_def percentile_rounded_def to_double_def py_int_def
      getitem_def Let_def)

lemma percentile_double_example:
  "to_double (1 / 2) = 1 / 2" "percentile_double [10, 20, 30, 40] (1 / 2) = Inr 25"
  by (simp_all add: percentile_double_def percentile_rounded_def to_double_def binade_numeral
      pow2_def round_half_even_def getitem_def Let_def)

text \<open>
  Claim C10 as stated fails on the numbers the script computes with. \<^const>\<open>percentile_double\<close>
  is the same function with each arithmetic result rounded to the nearest double. On the
  sorted sequence \<^verbatim>\<open>[0.1, 0.1]\<close> the estimate at \<^verbatim>\<open>0.0\<close> is \<^verbatim>\<open>0.1\<close>, and the estimate at
  \<^verbatim>\<open>0.3\<close> is \<^verbatim>\<open>0.1 * (1 - 0.3) + 0.1 * 0.3\<close>, which rounds to the double below \<^verbatim>\<open>0.1\<close>
  (Python prints \<^verbatim>\<open>0.09999999999999999\<close>): smaller than the estimate at \<^verbatim>\<open>0.0\<close> and smaller
  than the first value.
\<close>

theorem percentile_double_counterexample:
  "sorted [double_0_1, double_0_1] \<and> (0 :: real) \<le> 0 \<and> 0 \<le> double_0_3 \<and> double_0_3 \<le> 1
   \<and> percentile_double [double_0_1, double_0_1] 0 = Inr double_0_1
   \<and> percentile_double [double_0_1, double_0_1] double_0_3
       = Inr (7205759403792793 / 72057594037927936)
   \<and> (7205759403792793 / 72057594037927936 :: real) < double_0_1"
proof -
  have p0: "percentile_double [double_0_1, double_0_1] 0 = Inr double_0_1"
    by (simp add: percentile_double_def percentile_rounded_def to_double_def py_int_def
        getitem_def Let_def)
  have index: "to_double (of_int (int (length [double_0_1, double_0_1]) - 1) * double_0_3)
      = double_0_3"
    by (simp add: to_double_def binade_numeral pow2_def round_half_even_def Let_def
        double_0_3_def)
  have lo: "\<lfloor>double_0_3\<rfloor> = 0" and hi: "\<lceil>double_0_3\<rceil> = 1"
    by (simp_all add: double_0_3_def)
  have w1: "to_double (1 - double_0_3) = 3152519739159347 / 4503599627370496"
    by (simp add: to_double_def binade_numeral pow2_def round_half_even_def Let_def
        double_0_3_def)
  have w2: "to_double double_0_3 = double_0_3"
    by (simp add: to_double_def binade_numeral pow2_def round_half_even_def Let_def
        double_0_3_def)
  have a: "to_double (double_0_1 * (3152519739159347 / 4503599627370496))
      = 5044031582654955 / 72057594037927936"
    by (simp add: to_double_def binade_numeral pow2_def round_half_even_def Let_def
        double_0_1_def)
  have b: "to_double (double_0_1 * double_0_3) = 1080863910568919 / 36028797018963968"
    by (simp add: to_double_def binade_numeral pow2_def round_half_even_def Let_def
        double_0_1_def double_0_3_def)
  have s: "to_double (5044031582654955 / 72057594037927936
      + 1080863910568919 / 36028797018963968) = 7205759403792793 / 72057594037927936"
    by (simp add: to_double_def binade_numeral pow2_def round_half_even_def Let_def)
  have "percentile_double [double_0_1, double_0_1] double_0_3
      = Inr (to_double (to_double (double_0_1 * to_double (1 - double_0_3))
                        + to_double (double_0_1 * to_double double_0_3)))"
    unfolding percentile_double_def percentile_rounded_def Let_def index lo hi
    by (simp add: getitem_def)
  then have p3: "percentile_double [double_0_1, double_0_1] double_0_3
      = Inr (7205759403792793 / 72057594037927936)"
    by (simp only: w1 w2 a b s)
  have less: "(7205759403792793 / 72057594037927936 :: real) < double_0_1"
    by (simp add: double_0_1_def)
  have range: "sorted [double_0_1, double_0_1]" "0 \<le> double_0_3" "double_0_3 \<le> 1"
    by (simp_all add: double_0_3_def)
  from p0 p3 less range show ?thesis by simp
qed

section \<open>Properties of the worker\<close>

lemma run_statement_all_succeed:
  assumes "\<forall>i\<in>set is. invoke i = Inr (lat i)"
  shows "run_statement invoke is s = (s\<lparr>bench := bench s @ map lat is\<rparr>, None)"
  using assms
proof (induction "is" arbitrary: s)
  case Nil
  then show ?case by simp
next
  case (Cons i "is")
  then show ?case by (simp add: session_run_def)
qed

lemma run_statement_first_failure:
  assumes "\<forall>i\<in>set pre. invoke i = Inr (lat i)" and "invoke k = Inl e"
  shows "run_statement invoke (pre @ k # post) s = (s\<lparr>bench := bench s @ map lat pre\<rparr>, Some e)"
  using assms
proof (induction pre arbitrary: s)
  case Nil
  then show ?case by (simp add: session_run_def)
next
  case (Cons i pre)
  then show ?case by (simp add: session_run_def)
qed

lemma copy_bench_lengths:
  "length (self_overall (fst (copy_bench els self))) = length (self_overall self)
   \<and> length (self_network (fst (copy_bench els self))) = length (self_network self)
   \<and> length (self_wait (fst (copy_bench els self))) = length (self_wait self)"
proof (induction els self rule: copy_bench.induct)
  case (1 self)
  then show ?case by simp
next
  case (2 i l rest self)
  then show ?case
    by (auto simp: setitem_def split: sum.splits if_splits)
qed

lemma GAP_run_lengths:
  "length (self_overall (fst (GAP_run invoke self))) = length (self_overall self)
   \<and> length (self_network (fst (GAP_run invoke self))) = length (self_network self)
   \<and> length (self_wait (fst (GAP_run invoke self))) = length (self_wait self)"
proof (cases "run_statement invoke (py_range (self_run_count self)) (self_session self)")
  case (Pair s r)
  show ?thesis
  proof (cases r)
    case None
    with Pair show ?thesis
      using copy_bench_lengths [of "enumerate 0 (bench s)" "self\<lparr>self_session := s\<rparr>"]
      by (simp add: GAP_run_def)
  next
    case (Some e)
    with Pair show ?thesis by (simp add: GAP_run_def)
  qed
qed

lemma take_Suc_update:
  "j < length xs \<Longrightarrow> take (Suc j) (xs[j := v]) = take j xs @ [v]"
  by (simp add: take_Suc_conv_app_nth)

lemma copy_bench_fills:
  assumes "j + length ls \<le> length (self_overall self)"
    and "j + length ls \<le> length (self_network self)"
    and "j + length ls \<le> length (self_wait self)"
  shows "copy_bench (enumerate j ls) self =
     (self\<lparr>self_overall := take j (self_overall self) @ map overall ls
                  @ drop (j + length ls) (self_overall self),
            self_network := take j (self_network self) @ map network ls
                  @ drop (j + length ls) (self_network self),
            self_wait := take j (self_wait self) @ map wait ls
                  @ drop (j + length ls) (self_wait self)\<rparr>, None)"
  using assms
proof (induction ls arbitrary: j self)
  case Nil
  then show ?case by simp
next
  case (Cons l ls)
  let ?self' = "self\<lparr>self_overall := (self_overall self)[j := overall l],
                       self_network := (self_network self)[j := network l],
                       self_wait := (self_wait self)[j := wait l]\<rparr>"
  have j: "j < length (self_overall self)" "j < length (self_network self)"
    "j < length (self_wait self)"
    using Cons.prems by simp_all
  have step: "copy_bench (enumerate j (l # ls)) self = copy_bench (enumerate (Suc j) ls) ?self'"
    using j by (simp add: setitem_def)
  have "copy_bench (enumerate (Suc j) ls) ?self' =
     (?self'\<lparr>self_overall := take (Suc j) (self_overall ?self') @ map overall ls
                  @ drop (Suc j + length ls) (self_overall ?self'),
            self_network := take (Suc j) (self_network ?self') @ map network ls
                  @ drop (Suc j + length ls) (self_network ?self'),
            self_wait := take (Suc j) (self_wait ?self') @ map wait ls
                  @ drop (Suc j + length ls) (self_wait ?self')\<rparr>, None)"
    using Cons.prems by (intro Cons.IH) simp_all
  also have "\<dots> =
     (self\<lparr>self_overall := take j (self_overall self) @ map overall (l # ls)
                  @ drop (j + length (l # ls)) (self_overall self),
            self_network := take j (self_network self) @ map network (l # ls)
                  @ drop (j + length (l # ls)) (self_network self),
            self_wait := take j (self_wait self) @ map wait (l # ls)
                  @ drop (j + length (l # ls)) (self_wait self)\<rparr>, None)"
    using j by (simp add: take_Suc_update)
  finally show ?case using step by simp
qed

subsection \<open>What a worker leaves in its regions\<close>

text \<open>
  Claim C3, as amended. A worker is made by \<^const>\<open>GAP_init\<close> with a run count \<open>R\<close> and three
  regions of \<open>R\<close> zeros. When all \<open>R\<close> invocations succeed, \<^const>\<open>GAP_run\<close> ends without an
  exception and every slot of each region holds the corresponding latency of the
  invocation with the slot's number. When invocation \<open>k\<close> is the first to raise, the
  exception leaves \<^const>\<open>GAP_run\<close>, the invocations after \<open>k\<close> are not made (the session
  holds \<open>k\<close> samples), and nothing is copied: all \<open>R\<close> slots of each region, those of the
  completed invocations included, keep their initial zero.
\<close>

theorem GAP_run_slots:
  assumes "GAP_init None R statement (replicate (nat R) 0) (replicate (nat R) 0)
             (replicate (nat R) 0) = Inr self"
  shows "((\<forall>i<nat R. invoke i = Inr (lat i)) \<longrightarrow>
            GAP_run invoke self =
              (self\<lparr>self_overall := map (\<lambda>i. overall (lat i)) [0..<nat R],
                     self_network := map (\<lambda>i. network (lat i)) [0..<nat R],
                     self_wait := map (\<lambda>i. wait (lat i)) [0..<nat R],
                     self_session := \<lparr>bench = map lat [0..<nat R]\<rparr>\<rparr>, None))
       \<and> (k < nat R \<and> (\<forall>i<k. invoke i = Inr (lat i)) \<and> invoke k = Inl e \<longrightarrow>
            GAP_run invoke self = (self\<lparr>self_session := \<lparr>bench = map lat [0..<k]\<rparr>\<rparr>, Some e)
            \<and> self_overall self = replicate (nat R) 0
            \<and> self_network self = replicate (nat R) 0
            \<and> self_wait self = replicate (nat R) 0)"
proof -
  have self: "self = \<lparr>self_run_count = R, self_statement = statement,
      self_overall = replicate (nat R) 0, self_network = replicate (nat R) 0,
      self_wait = replicate (nat R) 0, self_session = new_session\<rparr>"
    using assms by (simp add: GAP_init_def)
  have success: "GAP_run invoke self =
              (self\<lparr>self_overall := map (\<lambda>i. overall (lat i)) [0..<nat R],
                     self_network := map (\<lambda>i. network (lat i)) [0..<nat R],
                     self_wait := map (\<lambda>i. wait (lat i)) [0..<nat R],
                     self_session := \<lparr>bench = map lat [0..<nat R]\<rparr>\<rparr>, None)"
    if all: "\<forall>i<nat R. invoke i = Inr (lat i)"
  proof -
    have "\<forall>i\<in>set [0..<nat R]. invoke i = Inr (lat i)"
      using all by simp
    then have "run_statement invoke [0..<nat R] new_session =
        (new_session\<lparr>bench := bench new_session @ map lat [0..<nat R]\<rparr>, None)"
      by (rule run_statement_all_succeed)
    then have loop: "run_statement invoke [0..<nat R] new_session =
        (\<lparr>bench = map lat [0..<nat R]\<rparr>, None)"
      by (simp add: new_session_def)
    let ?self' = "self\<lparr>self_session := \<lparr>bench = map lat [0..<nat R]\<rparr>\<rparr>"
    have "copy_bench (enumerate 0 (map lat [0..<nat R])) ?self' =
       (?self'\<lparr>self_overall := take 0 (self_overall ?self') @ map overall (map lat [0..<nat R])
                    @ drop (0 + length (map lat [0..<nat R])) (self_overall ?self'),
               self_network := take 0 (self_network ?self') @ map network (map lat [0..<nat R])
                    @ drop (0 + length (map lat [0..<nat R])) (self_network ?self'),
               self_wait := take 0 (self_wait ?self') @ map wait (map lat [0..<nat R])
                    @ drop (0 + length (map lat [0..<nat R])) (self_wait ?self')\<rparr>, None)"
      by (rule copy_bench_fills) (simp_all add: self)
    then have "copy_bench (enumerate 0 (map lat [0..<nat R])) ?self' =
              (self\<lparr>self_overall := map (\<lambda>i. overall (lat i)) [0..<nat R],
                     self_network := map (\<lambda>i. network (lat i)) [0..<nat R],
                     self_wait := map (\<lambda>i. wait (lat i)) [0..<nat R],
                     self_session := \<lparr>bench = map lat [0..<nat R]\<rparr>\<rparr>, None)"
      by (simp add: self comp_def)
    then show ?thesis
      using loop by (simp add: GAP_run_def py_range_def self)
  qed
  have failure: "GAP_run invoke self = (self\<lparr>self_session := \<lparr>bench = map lat [0..<k]\<rparr>\<rparr>, Some e)"
    if k: "k < nat R" and before: "\<forall>i<k. invoke i = Inr (lat i)" and at: "invoke k = Inl e"
  proof -
    have split: "[0..<nat R] = [0..<k] @ k # [Suc k..<nat R]"
      using k by (metis less_imp_le_nat upt_add_eq_append upt_conv_Cons le_add_diff_inverse zero_le)
    have "\<forall>i\<in>set [0..<k]. invoke i = Inr (lat i)"
      using before by simp
    then have "run_statement invoke ([0..<k] @ k # [Suc k..<nat R]) new_session =
        (new_session\<lparr>bench := bench new_session @ map lat [0..<k]\<rparr>, Some e)"
      using at by (rule run_statement_first_failure)
    then show ?thesis
      by (simp add: GAP_run_def py_range_def self split [symmetric] new_session_def)
  qed
  show ?thesis
    using success failure by (simp add: self)
qed

theorem GAP_run_slots_witness:
  "GAP_init None 2 ''RETURN 1'' (replicate (nat 2) 0) (replicate (nat 2) 0) (replicate (nat 2) 0)
     = Inr example_worker
   \<and> GAP_run (\<lambda>i. Inr (example_latency i)) example_worker =
       (example_worker\<lparr>self_overall := [5, 6], self_network := [3, 3], self_wait := [2, 2],
          self_session := \<lparr>bench = [example_latency 0, example_latency 1]\<rparr>\<rparr>, None)
   \<and> GAP_run example_failing_invoke example_worker =
       (example_worker\<lparr>self_session := \<lparr>bench = [example_latency 0]\<rparr>\<rparr>,
        Some (ExternalError ''connection lost''))
   \<and> self_overall example_worker = [0, 0]"
proof -
  have init: "GAP_init None 2 ''RETURN 1'' (replicate (nat 2) 0) (replicate (nat 2) 0)
      (replicate (nat 2) 0) = Inr example_worker"
    by (simp add: GAP_init_def example_worker_def numeral_2_eq_2)
  have upt: "[0..<2] = [0, 1::nat]" "[0..<1] = [0::nat]"
    by (simp_all add: numeral_2_eq_2)
  have ok: "\<forall>i<nat 2. Inr (example_latency i) = (Inr (example_latency i) :: py_error + latency)"
    by simp
  have bad: "(1::nat) < nat 2 \<and> (\<forall>i<1. example_failing_invoke i = Inr (example_latency i))
      \<and> example_failing_invoke 1 = Inl (ExternalError ''connection lost'')"
    by (simp add: example_failing_invoke_def)
  from GAP_run_slots [OF init, where invoke = "\<lambda>i. Inr (example_latency i)"
      and lat = example_latency]
  have one: "GAP_run (\<lambda>i. Inr (example_latency i)) example_worker =
       (example_worker\<lparr>self_overall := [5, 6], self_network := [3, 3], self_wait := [2, 2],
          self_session := \<lparr>bench = [example_latency 0, example_latency 1]\<rparr>\<rparr>, None)"
    by (simp add: upt example_latency_def)
  from GAP_run_slots [OF init, where invoke = example_failing_invoke
      and lat = example_latency and k = 1 and e = "ExternalError ''connection lost''"] bad
  have two: "GAP_run example_failing_invoke example_worker =
       (example_worker\<lparr>self_session := \<lparr>bench = [example_latency 0]\<rparr>\<rparr>,
        Some (ExternalError ''connection lost''))"
    by (simp add: upt)
  from init one two show ?thesis by (simp add: example_worker_def)
qed

text \<open>
  Claim C3 as stated says that only the trailing slots stay zero after a failure. With
  a run count of 2, a first invocation that takes an overall time of 5 and a second one
  that raises, slot 0 of the overall region is still 0 and not 5.
\<close>

theorem GAP_run_leading_slot_counterexample:
  "snd (GAP_run example_failing_invoke example_worker) = Some (ExternalError ''connection lost'')
   \<and> example_failing_invoke 0 = Inr (example_latency 0)
   \<and> overall (example_latency 0) = 5
   \<and> self_overall (fst (GAP_run example_failing_invoke example_worker)) ! 0 = 0"
  by (simp add: GAP_run_def py_range_def example_worker_def example_failing_invoke_def
      example_latency_def new_session_def session_run_def numeral_2_eq_2)

section \<open>Properties of the coordinator\<close>

subsection \<open>Sequencing\<close>

lemma then_do_Inl [simp]: "then_do (tr, Inl e) f = (tr, Inl e)"
  by (simp add: then_do_def)

lemma then_do_Inr [simp]: "then_do (tr, Inr x) f = (tr @ fst (f x), snd (f x))"
  by (simp add: then_do_def split: prod.splits)

lemma then_do_emit: "then_do (emit evs) f = (evs @ fst (f ()), snd (f ()))"
  by (simp add: emit_def)

lemma then_do_ret: "then_do (ret x) f = f x"
  by (simp add: ret_def)

lemma then_do_lift_Inr: "then_do (lift (Inr x)) f = f x"
  by (simp add: lift_def)

lemma then_do_lift_Inl: "then_do (lift (Inl e)) f = ([], Inl e)"
  by (simp add: lift_def)

lemma snd_then_do_Inr:
  "snd (then_do m f) = Inr y \<longleftrightarrow> (\<exists>x. snd m = Inr x \<and> snd (f x) = Inr y)"
  by (cases m; cases "snd m") (auto simp: then_do_def split: prod.splits)

lemma fst_then_do:
  "fst (then_do m f) = fst m @ (case snd m of Inl e \<Rightarrow> [] | Inr x \<Rightarrow> fst (f x))"
  by (cases m; cases "snd m") (auto simp: then_do_def split: prod.splits)

lemma for_loop_trace:
  "\<forall>x\<in>set xs. snd (body x) = Inr () \<Longrightarrow>
     for_loop body xs = (concat (map (\<lambda>x. fst (body x)) xs), Inr ())"
proof (induction xs)
  case Nil
  then show ?case by (simp add: ret_def)
next
  case (Cons x xs)
  then have "body x = (fst (body x), Inr ())"
    by (metis list.set_intros(1) prod.collapse)
  then have "for_loop body (x # xs) = then_do (fst (body x), Inr ()) (\<lambda>_. for_loop body xs)"
    by simp
  also have "\<dots> = (fst (body x) @ concat (map (\<lambda>x. fst (body x)) xs), Inr ())"
    using Cons by simp
  finally show ?case by simp
qed

lemma concat_map_singleton: "concat (map (\<lambda>x. [f x]) xs) = map f xs"
  by (induction xs) simp_all

lemma for_each_Inr:
  "for_each f xs = Inr ys \<Longrightarrow>
     length ys = length xs \<and> (\<forall>i<length xs. f (xs ! i) = Inr (ys ! i))"
proof (induction xs arbitrary: ys)
  case Nil
  then show ?case by simp
next
  case (Cons x xs)
  from Cons.prems obtain y ys' where y: "f x = Inr y" and ys': "for_each f xs = Inr ys'"
    and ys: "ys = y # ys'"
    by (auto split: sum.splits)
  from Cons.IH [OF ys'] y ys show ?case
    by (auto simp: nth_Cons split: nat.splits)
qed

lemma for_each_all_Inr:
  "\<forall>x\<in>set xs. f x = Inr (g x) \<Longrightarrow> for_each f xs = Inr (map g xs)"
  by (induction xs) simp_all

lemma length_concat_uniform:
  "\<forall>xs\<in>set xss. length xs = n \<Longrightarrow> length (concat xss) = length xss * n"
  by (induction xss) simp_all

lemma print_bench_Nil: "snd (print_bench [] nw wt) = Inl IndexError"
  by (simp add: print_bench_def percentiles_def print_row_def then_do_emit
      percentile_def getitem_def lift_def Let_def)

lemma run_all_InrD:
  assumes "snd (run_all b P R statement) = Inr agg"
  obtains ov nw wt procs tx where
    "for_each (\<lambda>_. Array_d R) (py_range P) = Inr ov"
    "for_each (\<lambda>_. Array_d R) (py_range P) = Inr nw"
    "for_each (\<lambda>_. Array_d R) (py_range P) = Inr wt"
    "for_each (\<lambda>i. GAP_init (session_opening b i) R statement (ov ! i) (nw ! i) (wt ! i))
       (py_range P) = Inr procs"
    "true_div (of_int (P * R)) (elapsed b) = Inr tx"
    "agg = \<lparr>sample_count = P * R, elapsed_seconds = elapsed b,
       overall_samples = sort (concat (map self_overall
          (map (\<lambda>i. fst (GAP_run (invocation b i) (procs ! i))) (py_range P)))),
       network_samples = sort (concat (map self_network
          (map (\<lambda>i. fst (GAP_run (invocation b i) (procs ! i))) (py_range P)))),
       wait_samples = sort (concat (map self_wait
          (map (\<lambda>i. fst (GAP_run (invocation b i) (procs ! i))) (py_range P))))\<rparr>"
    "snd (print_bench (overall_samples agg) (network_samples agg) (wait_samples agg)) = Inr ()"
  using assms
  unfolding run_all_def Let_def
  by (auto simp: snd_then_do_Inr lift_def emit_def ret_def)

lemma Array_d_Inr: "Array_d R = Inr xs \<Longrightarrow> xs = replicate (nat R) 0"
  by (simp add: Array_d_def split: if_splits)

lemma GAP_init_Inr:
  "GAP_init c R statement ov nw wt = Inr g \<Longrightarrow>
     g = \<lparr>self_run_count = R, self_statement = statement, self_overall = ov,
          self_network = nw, self_wait = wt, self_session = new_session\<rparr>"
  by (simp add: GAP_init_def split: option.splits)

lemma joined_worker_lengths:
  "length (self_overall (joined_worker b R statement i)) = nat R"
  "length (self_network (joined_worker b R statement i)) = nat R"
  "length (self_wait (joined_worker b R statement i)) = nat R"
  unfolding joined_worker_def
  using GAP_run_lengths [of "invocation b i"
      "\<lparr>self_run_count = R, self_statement = statement,
        self_overall = replicate (nat R) 0, self_network = replicate (nat R) 0,
        self_wait = replicate (nat R) 0, self_session = new_session\<rparr>"]
  by simp_all

lemma run_all_joined:
  assumes ov: "for_each (\<lambda>_. Array_d R) (py_range P) = Inr ov"
    and nw: "for_each (\<lambda>_. Array_d R) (py_range P) = Inr nw"
    and wt: "for_each (\<lambda>_. Array_d R) (py_range P) = Inr wt"
    and procs: "for_each (\<lambda>i. GAP_init (session_opening b i) R statement (ov ! i) (nw ! i) (wt ! i))
       (py_range P) = Inr procs"
  shows "map (\<lambda>i. fst (GAP_run (invocation b i) (procs ! i))) (py_range P)
       = map (joined_worker b R statement) (py_range P)"
proof (rule map_cong [OF refl])
  fix i assume "i \<in> set (py_range P)"
  then have i: "i < nat P" by (simp add: py_range_def)
  have len: "length (py_range P) = nat P" and nth: "py_range P ! i = i"
    using i by (simp_all add: py_range_def)
  have z: "ov ! i = replicate (nat R) 0" "nw ! i = replicate (nat R) 0"
    "wt ! i = replicate (nat R) 0"
    using for_each_Inr [OF ov] for_each_Inr [OF nw] for_each_Inr [OF wt] i len
    by (auto dest: Array_d_Inr)
  have "GAP_init (session_opening b i) R statement (ov ! i) (nw ! i) (wt ! i) = Inr (procs ! i)"
    using for_each_Inr [OF procs] i len nth by auto
  then have "procs ! i = \<lparr>self_run_count = R, self_statement = statement,
        self_overall = replicate (nat R) 0, self_network = replicate (nat R) 0,
        self_wait = replicate (nat R) 0, self_session = new_session\<rparr>"
    unfolding z by (rule GAP_init_Inr)
  then show "fst (GAP_run (invocation b i) (procs ! i)) = joined_worker b R statement i"
    by (simp add: joined_worker_def)
qed

lemma length_concat_map_uniform:
  "\<forall>i\<in>set is. length (f i) = n \<Longrightarrow> length (concat (map f is)) = length is * n"
  by (induction "is") simp_all

lemma int_nat_mult_pos:
  assumes "0 < nat P * nat R"
  shows "int (nat P * nat R) = P * R"
proof -
  have "0 < P" and "0 < R" using assms by simp_all
  then show ?thesis by simp
qed

subsection \<open>The trace of one batch\<close>

lemma run_all_trace:
  assumes "snd (run_all b P R s) = Inr agg"
  shows "fst (run_all b P R s) =
     [Print rule_line, Print ('' '' @ s)] @ map Start (py_range P) @ map Join (py_range P)
     @ [PrintRuns R P, PrintThroughput (of_int (P * R) / elapsed b),
        PrintRequests (P * R) (elapsed b)]
     @ fst (print_bench (overall_samples agg) (network_samples agg) (wait_samples agg))
     @ [Print '''']"
proof -
  from assms obtain ov nw wt procs tx where
    ov: "for_each (\<lambda>_. Array_d R) (py_range P) = Inr ov" and
    nw: "for_each (\<lambda>_. Array_d R) (py_range P) = Inr nw" and
    wt: "for_each (\<lambda>_. Array_d R) (py_range P) = Inr wt" and
    procs: "for_each (\<lambda>i. GAP_init (session_opening b i) R s (ov ! i) (nw ! i) (wt ! i))
       (py_range P) = Inr procs" and
    tx: "true_div (of_int (P * R)) (elapsed b) = Inr tx" and
    agg: "agg = \<lparr>sample_count = P * R, elapsed_seconds = elapsed b,
       overall_samples = sort (concat (map self_overall
          (map (\<lambda>i. fst (GAP_run (invocation b i) (procs ! i))) (py_range P)))),
       network_samples = sort (concat (map self_network
          (map (\<lambda>i. fst (GAP_run (invocation b i) (procs ! i))) (py_range P)))),
       wait_samples = sort (concat (map self_wait
          (map (\<lambda>i. fst (GAP_run (invocation b i) (procs ! i))) (py_range P))))\<rparr>" and
    printed: "snd (print_bench (overall_samples agg) (network_samples agg) (wait_samples agg))
       = Inr ()"
    by (rule run_all_InrD)
  have same: "nw = ov" "wt = ov" using ov nw wt by simp_all
  have tx': "tx = of_int (P * R) / elapsed b"
    using tx by (simp add: true_div_def split: if_splits)
  have tx2: "true_div (real_of_int P * real_of_int R) (elapsed b) = Inr tx"
    using tx by simp
  note procs' = procs [unfolded same]
  have "fst (run_all b P R s) =
     [Print rule_line, Print ('' '' @ s)] @ map Start (py_range P) @ map Join (py_range P)
     @ [PrintRuns R P, PrintThroughput tx, PrintRequests (P * R) (elapsed b)]
     @ fst (print_bench (overall_samples agg) (network_samples agg) (wait_samples agg))
     @ [Print '''']"
    unfolding run_all_def Let_def
    using printed [unfolded agg]
    by (simp add: fst_then_do ov procs' tx2 lift_def emit_def ret_def agg)
  then show ?thesis by (simp add: tx')
qed

lemma print_row_value:
  assumes "ov \<noteq> []" "nw \<noteq> []" "wt \<noteq> []" "0 \<le> p" "p \<le> 100"
  shows "print_row ov nw wt p =
     ([PrintRow (p \<in> set [50, 90, 99, 99.9]) p (projr (percentile ov (p / 100)))
         (projr (percentile nw (p / 100))) (projr (percentile wt (p / 100)))], Inr ())"
proof -
  have p: "0 \<le> p / 100" "p / 100 \<le> 1" using assms(4,5) by simp_all
  show ?thesis
    unfolding print_row_def
    by (simp add: percentile_spec_estimate [OF assms(1) p]
        percentile_spec_estimate [OF assms(2) p] percentile_spec_estimate [OF assms(3) p]
        then_do_lift_Inr emit_def)
qed

lemma print_bench_rows:
  assumes "ov \<noteq> []" "nw \<noteq> []" "wt \<noteq> []"
  shows "print_bench ov nw wt =
     ([Print rule_line,
       Print '' percentile |   overall   |   network   |     wait    '',
       Print ''------------|-------------|-------------|-------------'']
      @ map (\<lambda>p. PrintRow (p \<in> set [50, 90, 99, 99.9]) p (projr (percentile ov (p / 100)))
                (projr (percentile nw (p / 100))) (projr (percentile wt (p / 100))))
          percentiles, Inr ())"
proof -
  let ?row = "\<lambda>p. PrintRow (p \<in> set [50, 90, 99, 99.9]) p (projr (percentile ov (p / 100)))
                (projr (percentile nw (p / 100))) (projr (percentile wt (p / 100)))"
  have row: "print_row ov nw wt p = ([?row p], Inr ())" if "p \<in> set percentiles" for p
  proof -
    from that have "0 \<le> p" "p \<le> 100" by (auto simp: percentiles_def)
    with assms show ?thesis by (rule print_row_value)
  qed
  have "for_loop (print_row ov nw wt) percentiles =
      (concat (map (\<lambda>p. fst (print_row ov nw wt p)) percentiles), Inr ())"
    using row by (intro for_loop_trace) simp
  also have "map (\<lambda>p. fst (print_row ov nw wt p)) percentiles = map (\<lambda>p. [?row p]) percentiles"
    using row by (intro map_cong refl) simp
  also have "concat \<dots> = map ?row percentiles"
    by (rule concat_map_singleton)
  finally show ?thesis
    by (simp add: print_bench_def then_do_emit)
qed

subsection \<open>The aggregate of one batch\<close>

text \<open>
  Claim C2. Whenever \<^const>\<open>run_all\<close> with parallelism \<open>P\<close> and run count \<open>R\<close> returns, the
  request count it reports is \<open>P \<sqdot> R\<close>, each of the three sequences handed to
  \<^const>\<open>print_bench\<close> (and so to \<^const>\<open>percentile\<close>) has exactly \<open>P \<sqdot> R\<close> elements, and each is
  the ascending sort of the concatenation, over the workers \<open>0 .. P - 1\<close>, of the region
  that the worker's run has left. These sorted sequences are what is rendered: the trace
  of the call is the header, the starts and joins of the workers, the three summary lines,
  the output of \<^const>\<open>print_bench\<close> on the sorted sequences and an empty line, and each row
  of that output holds the three values that \<^const>\<open>percentile\<close> returns on them.
\<close>

theorem run_all_aggregate:
  assumes "run_all b P R statement = (tr, Inr agg)"
  shows "sample_count agg = P * R
       \<and> int (length (overall_samples agg)) = P * R
       \<and> int (length (network_samples agg)) = P * R
       \<and> int (length (wait_samples agg)) = P * R
       \<and> overall_samples agg =
           sort (concat (map (\<lambda>i. self_overall (joined_worker b R statement i)) [0..<nat P]))
       \<and> network_samples agg =
           sort (concat (map (\<lambda>i. self_network (joined_worker b R statement i)) [0..<nat P]))
       \<and> wait_samples agg =
           sort (concat (map (\<lambda>i. self_wait (joined_worker b R statement i)) [0..<nat P]))
       \<and> sorted (overall_samples agg) \<and> sorted (network_samples agg)
       \<and> sorted (wait_samples agg)
       \<and> tr = [Print rule_line, Print ('' '' @ statement)]
              @ map Start (py_range P) @ map Join (py_range P)
              @ [PrintRuns R P, PrintThroughput (of_int (P * R) / elapsed b),
                 PrintRequests (P * R) (elapsed b)]
              @ fst (print_bench (overall_samples agg) (network_samples agg)
                       (wait_samples agg))
              @ [Print '''']
       \<and> print_bench (overall_samples agg) (network_samples agg) (wait_samples agg) =
           ([Print rule_line,
             Print '' percentile |   overall   |   network   |     wait    '',
             Print ''------------|-------------|-------------|-------------'']
            @ map (\<lambda>p. PrintRow (p \<in> set [50, 90, 99, 99.9]) p
                      (projr (percentile (overall_samples agg) (p / 100)))
                      (projr (percentile (network_samples agg) (p / 100)))
                      (projr (percentile (wait_samples agg) (p / 100))))
                percentiles, Inr ())"
proof -
  from assms have returned: "snd (run_all b P R statement) = Inr agg" by simp
  then obtain ov nw wt procs tx where
    ov: "for_each (\<lambda>_. Array_d R) (py_range P) = Inr ov" and
    nw: "for_each (\<lambda>_. Array_d R) (py_range P) = Inr nw" and
    wt: "for_each (\<lambda>_. Array_d R) (py_range P) = Inr wt" and
    procs: "for_each (\<lambda>i. GAP_init (session_opening b i) R statement (ov ! i) (nw ! i) (wt ! i))
       (py_range P) = Inr procs" and
    tx: "true_div (of_int (P * R)) (elapsed b) = Inr tx" and
    agg: "agg = \<lparr>sample_count = P * R, elapsed_seconds = elapsed b,
       overall_samples = sort (concat (map self_overall
          (map (\<lambda>i. fst (GAP_run (invocation b i) (procs ! i))) (py_range P)))),
       network_samples = sort (concat (map self_network
          (map (\<lambda>i. fst (GAP_run (invocation b i) (procs ! i))) (py_range P)))),
       wait_samples = sort (concat (map self_wait
          (map (\<lambda>i. fst (GAP_run (invocation b i) (procs ! i))) (py_range P))))\<rparr>" and
    printed: "snd (print_bench (overall_samples agg) (network_samples agg) (wait_samples agg))
       = Inr ()"
    by (rule run_all_InrD)
  note joined = run_all_joined [OF ov nw wt procs]
  have o: "overall_samples agg =
      sort (concat (map (\<lambda>i. self_overall (joined_worker b R statement i)) [0..<nat P]))"
    and n: "network_samples agg =
      sort (concat (map (\<lambda>i. self_network (joined_worker b R statement i)) [0..<nat P]))"
    and w: "wait_samples agg =
      sort (concat (map (\<lambda>i. self_wait (joined_worker b R statement i)) [0..<nat P]))"
    unfolding agg joined by (simp_all add: py_range_def comp_def)
  have lo: "length (overall_samples agg) = nat P * nat R"
    unfolding o length_sort
    by (subst length_concat_map_uniform [where n = "nat R"])
      (simp_all add: joined_worker_lengths)
  have ln: "length (network_samples agg) = nat P * nat R"
    unfolding n length_sort
    by (subst length_concat_map_uniform [where n = "nat R"])
      (simp_all add: joined_worker_lengths)
  have lw: "length (wait_samples agg) = nat P * nat R"
    unfolding w length_sort
    by (subst length_concat_map_uniform [where n = "nat R"])
      (simp_all add: joined_worker_lengths)
  have "overall_samples agg \<noteq> []"
    using printed print_bench_Nil by force
  then have "0 < length (overall_samples agg)"
    by simp
  then have "0 < nat P * nat R"
    unfolding lo .
  then have count: "int (nat P * nat R) = P * R"
    by (rule int_nat_mult_pos)
  have s: "sorted (overall_samples agg)" "sorted (network_samples agg)"
    "sorted (wait_samples agg)"
    unfolding o n w by simp_all
  have sc: "sample_count agg = P * R"
    by (simp add: agg)
  have "tr = fst (run_all b P R statement)"
    using assms by simp
  then have trace: "tr = [Print rule_line, Print ('' '' @ statement)]
              @ map Start (py_range P) @ map Join (py_range P)
              @ [PrintRuns R P, PrintThroughput (of_int (P * R) / elapsed b),
                 PrintRequests (P * R) (elapsed b)]
              @ fst (print_bench (overall_samples agg) (network_samples agg)
                       (wait_samples agg))
              @ [Print '''']"
    by (simp only: run_all_trace [OF returned])
  have nonempty: "overall_samples agg \<noteq> []" "network_samples agg \<noteq> []"
    "wait_samples agg \<noteq> []"
    using \<open>0 < nat P * nat R\<close> lo ln lw by auto
  note rows = print_bench_rows [OF nonempty]
  have facts: "sample_count agg = P * R
       \<and> int (length (overall_samples agg)) = P * R
       \<and> int (length (network_samples agg)) = P * R
       \<and> int (length (wait_samples agg)) = P * R"
    using sc count lo ln lw by simp
  from facts o n w s trace rows show ?thesis
    by (intro conjI) (elim conjE, assumption)+
qed

text \<open>The hypothesis of the theorem can be met: \<^const>\<open>run_all\<close> returns when the counts
  are positive, every session opens and the elapsed time is not zero.\<close>

lemma for_loop_succeeds:
  "\<forall>x\<in>set xs. snd (body x) = Inr () \<Longrightarrow> snd (for_loop body xs) = Inr ()"
  by (induction xs) (simp_all add: ret_def snd_then_do_Inr)

lemma print_row_succeeds:
  assumes "ov \<noteq> []" "nw \<noteq> []" "wt \<noteq> []" "0 \<le> p" "p \<le> 100"
  shows "snd (print_row ov nw wt p) = Inr ()"
proof -
  have p: "0 \<le> p / 100" "p / 100 \<le> 1" using assms(4,5) by simp_all
  show ?thesis
    unfolding print_row_def
    by (simp add: percentile_spec_estimate [OF assms(1) p]
        percentile_spec_estimate [OF assms(2) p] percentile_spec_estimate [OF assms(3) p]
        then_do_lift_Inr emit_def)
qed

lemma percentiles_range: "\<forall>p\<in>set percentiles. 0 \<le> p \<and> p \<le> 100"
  by (simp add: percentiles_def)

lemma print_bench_succeeds:
  assumes "ov \<noteq> []" "nw \<noteq> []" "wt \<noteq> []"
  shows "snd (print_bench ov nw wt) = Inr ()"
  unfolding print_bench_def
  using percentiles_range
  by (simp add: then_do_emit for_loop_succeeds print_row_succeeds [OF assms])

lemma concat_replicated_nonempty:
  assumes "\<forall>i\<in>set is. length (f i) = n" "is \<noteq> []" "0 < n"
  shows "sort (concat (map f is)) \<noteq> ([] :: real list)"
proof -
  have "length (concat (map f is)) = length is * n"
    using assms(1) by (rule length_concat_map_uniform)
  moreover have "0 < length is * n" using assms(2,3) by simp
  ultimately have "0 < length (sort (concat (map f is)))"
    by (simp only: length_sort)
  then show ?thesis by (simp only: length_greater_0_conv not_False_eq_True)
qed

lemma run_all_returns:
  assumes "0 < P" "0 < R" "elapsed b \<noteq> 0" "\<forall>i<nat P. session_opening b i = None"
  shows "\<exists>tr agg. run_all b P R statement = (tr, Inr agg)"
proof -
  let ?zeros = "replicate (nat R) (0::real)"
  let ?fresh = "\<lparr>self_run_count = R, self_statement = statement,
        self_overall = ?zeros, self_network = ?zeros,
        self_wait = ?zeros, self_session = new_session\<rparr>"
  have arrays: "for_each (\<lambda>_. Array_d R) (py_range P) = Inr (map (\<lambda>_. ?zeros) (py_range P))"
    using assms(2) by (intro for_each_all_Inr) (simp add: Array_d_def)
  have procs: "for_each (\<lambda>i. GAP_init (session_opening b i) R statement
        (map (\<lambda>_. ?zeros) (py_range P) ! i) (map (\<lambda>_. ?zeros) (py_range P) ! i)
        (map (\<lambda>_. ?zeros) (py_range P) ! i)) (py_range P)
      = Inr (map (\<lambda>_. ?fresh) (py_range P))"
    using assms(4) by (intro for_each_all_Inr) (simp add: GAP_init_def py_range_def)
  have joined: "map (\<lambda>i. fst (GAP_run (invocation b i) (map (\<lambda>_. ?fresh) (py_range P) ! i)))
      (py_range P) = map (joined_worker b R statement) (py_range P)"
    using arrays arrays arrays procs by (rule run_all_joined)
  have range: "py_range P \<noteq> []" using assms(1) by (simp add: py_range_def)
  have n: "0 < nat R" using assms(2) by simp
  have nonempty:
    "sort (concat (map (\<lambda>i. self_overall (joined_worker b R statement i)) (py_range P))) \<noteq> []"
    "sort (concat (map (\<lambda>i. self_network (joined_worker b R statement i)) (py_range P))) \<noteq> []"
    "sort (concat (map (\<lambda>i. self_wait (joined_worker b R statement i)) (py_range P))) \<noteq> []"
    using range n
    by (intro concat_replicated_nonempty [where n = "nat R"];
        simp add: joined_worker_lengths)+
  have fused:
    "map (\<lambda>i. self_overall (fst (GAP_run (invocation b i) (map (\<lambda>_. ?fresh) (py_range P) ! i))))
       (py_range P) = map (\<lambda>i. self_overall (joined_worker b R statement i)) (py_range P)"
    "map (\<lambda>i. self_network (fst (GAP_run (invocation b i) (map (\<lambda>_. ?fresh) (py_range P) ! i))))
       (py_range P) = map (\<lambda>i. self_network (joined_worker b R statement i)) (py_range P)"
    "map (\<lambda>i. self_wait (fst (GAP_run (invocation b i) (map (\<lambda>_. ?fresh) (py_range P) ! i))))
       (py_range P) = map (\<lambda>i. self_wait (joined_worker b R statement i)) (py_range P)"
    using joined [THEN arg_cong, of "map self_overall"]
      joined [THEN arg_cong, of "map self_network"]
      joined [THEN arg_cong, of "map self_wait"]
    by (simp_all add: comp_def)
  have "\<exists>agg. snd (run_all b P R statement) = Inr agg"
    unfolding run_all_def Let_def
    using assms(3) nonempty
    by (simp add: snd_then_do_Inr then_do_emit arrays procs fused then_do_lift_Inr true_div_def
        ret_def comp_def print_bench_succeeds lift_def emit_def)
  then show ?thesis by (metis prod.collapse)
qed

theorem run_all_aggregate_witness:
  "\<exists>tr agg. run_all example_batch 2 2 ''RETURN 1'' = (tr, Inr agg)
     \<and> sample_count agg = 2 * 2
     \<and> int (length (overall_samples agg)) = 2 * 2
     \<and> overall_samples agg = [3, 4, 4, 5]
     \<and> network_samples agg = [2, 2, 3, 3]
     \<and> wait_samples agg = [1, 1, 1, 1]
     \<and> sorted (overall_samples agg)
     \<and> tr = [Print rule_line, Print '' RETURN 1'', Start 0, Start 1, Join 0, Join 1,
              PrintRuns 2 2, PrintThroughput (4 / elapsed example_batch),
              PrintRequests 4 (elapsed example_batch)]
            @ fst (print_bench [3, 4, 4, 5] [2, 2, 3, 3] [1, 1, 1, 1]) @ [Print '''']"
proof -
  have "\<exists>tr agg. run_all example_batch 2 2 ''RETURN 1'' = (tr, Inr agg)"
    by (rule run_all_returns) (simp_all add: example_batch_def)
  then obtain tr agg where run: "run_all example_batch 2 2 ''RETURN 1'' = (tr, Inr agg)"
    by blast
  have upt: "[0..<2] = [0, 1::nat]" by (simp add: numeral_2_eq_2)
  have w0: "joined_worker example_batch 2 ''RETURN 1'' 0 =
      \<lparr>self_run_count = 2, self_statement = ''RETURN 1'', self_overall = [4, 3],
       self_network = [2, 3], self_wait = [1, 1],
       self_session = \<lparr>bench = [\<lparr>overall = 4, network = 2, wait = 1\<rparr>,
                                 \<lparr>overall = 3, network = 3, wait = 1\<rparr>]\<rparr>\<rparr>"
    by (simp add: joined_worker_def GAP_run_def py_range_def example_batch_def upt
        new_session_def session_run_def setitem_def numeral_2_eq_2)
  have w1: "joined_worker example_batch 2 ''RETURN 1'' (Suc 0) =
      \<lparr>self_run_count = 2, self_statement = ''RETURN 1'', self_overall = [5, 4],
       self_network = [2, 3], self_wait = [1, 1],
       self_session = \<lparr>bench = [\<lparr>overall = 5, network = 2, wait = 1\<rparr>,
                                 \<lparr>overall = 4, network = 3, wait = 1\<rparr>]\<rparr>\<rparr>"
    by (simp add: joined_worker_def GAP_run_def py_range_def example_batch_def upt
        new_session_def session_run_def setitem_def numeral_2_eq_2)
  from run_all_aggregate [OF run] have
    "sample_count agg = 2 * 2
     \<and> int (length (overall_samples agg)) = 2 * 2
     \<and> overall_samples agg = [3, 4, 4, 5]
     \<and> network_samples agg = [2, 2, 3, 3]
     \<and> wait_samples agg = [1, 1, 1, 1]
     \<and> sorted (overall_samples agg)
     \<and> tr = [Print rule_line, Print '' RETURN 1'', Start 0, Start 1, Join 0, Join 1,
              PrintRuns 2 2, PrintThroughput (4 / elapsed example_batch),
              PrintRequests 4 (elapsed example_batch)]
            @ fst (print_bench [3, 4, 4, 5] [2, 2, 3, 3] [1, 1, 1, 1]) @ [Print '''']"
    by (simp add: upt w0 w1 py_range_def)
  with run show ?thesis by blast
qed

section \<open>Properties of the command line\<close>

subsection \<open>The defaults\<close>

lemma log_2_16: "log 2 16 = 4"
proof -
  have "log 2 16 = log 2 (2 ^ 4)" by simp
  also have "\<dots> = 4" by (subst log_pow_cancel) simp_all
  finally show ?thesis .
qed

lemma default_parallels_eq [code]: "default_parallels = [1, 2, 4, 8, 16]"
proof -
  have "py_range (\<lceil>log 2 16\<rceil> + 1) = [0, 1, 2, 3, 4]"
    unfolding log_2_16 py_range_def by (simp add: upt_rec)
  then show ?thesis by (simp add: default_parallels_def)
qed

subsection \<open>The option loop\<close>

lemma parse_args_trace:
  "snd (parse_args script args cfg) = Inr c \<Longrightarrow> fst (parse_args script args cfg) = []"
proof (induction script args cfg rule: parse_args.induct)
  case (1 script cfg)
  then show ?case by (simp add: ret_def)
next
  case (2 script arg args cfg)
  then show ?case
    by (simp add: help_fn_def emit_def py_raise_def split: if_splits list.splits sum.splits)
qed

lemma parse_args_run_count:
  "''-x'' \<notin> set args \<Longrightarrow> ''--times'' \<notin> set args \<Longrightarrow>
   snd (parse_args script args cfg) = Inr c \<Longrightarrow> cfg_run_count c = cfg_run_count cfg"
proof (induction script args cfg rule: parse_args.induct)
  case (1 script cfg)
  then show ?case by (simp add: ret_def)
next
  case (2 script arg args cfg)
  have rest: "''-x'' \<notin> set args" "''--times'' \<notin> set args"
    using "2.prems"(1,2) by (metis list.set_intros(2))+
  have "arg \<noteq> ''-x''" "arg \<noteq> ''--times''"
    using "2.prems"(1,2) by (metis list.set_intros(1))+
  then have nt: "arg \<notin> set times_flags"
    by (simp add: times_flags_def)
  show ?case
  proof (cases "startswith arg ''-''")
    case False
    then have "snd (parse_args script args (cfg\<lparr>cfg_statements := cfg_statements cfg @ [arg]\<rparr>))
        = Inr c"
      using "2.prems"(3) by simp
    with "2.IH"(3) [OF False rest] show ?thesis by simp
  next
    case opt: True
    show ?thesis
    proof (cases "arg \<in> set help_flags")
      case True
      with opt "2.prems"(3) show ?thesis
        by (simp add: help_fn_def emit_def py_raise_def)
    next
      case nh: False
      show ?thesis
      proof (cases "arg \<in> set parallels_flags")
        case False
        with opt nh nt "2.prems"(3) show ?thesis
          by (simp add: emit_def py_raise_def)
      next
        case par: True
        from opt nh nt par "2.prems"(3) obtain v rest' ps where
          args: "args = v # rest'" and ps: "for_each int_of_str (py_split (CHR '','') v) = Inr ps"
          and run: "snd (parse_args script rest' (cfg\<lparr>cfg_parallels := ps\<rparr>)) = Inr c"
          by (simp add: py_raise_def split: list.splits sum.splits)
        have "''-x'' \<notin> set rest'" "''--times'' \<notin> set rest'"
          using rest args by simp_all
        from "2.IH"(2) [OF opt nh nt par args ps this run] show ?thesis by simp
      qed
    qed
  qed
qed

lemma parse_args_parallels:
  "''-p'' \<notin> set args \<Longrightarrow> ''--parallels'' \<notin> set args \<Longrightarrow>
   snd (parse_args script args cfg) = Inr c \<Longrightarrow> cfg_parallels c = cfg_parallels cfg"
proof (induction script args cfg rule: parse_args.induct)
  case (1 script cfg)
  then show ?case by (simp add: ret_def)
next
  case (2 script arg args cfg)
  have rest: "''-p'' \<notin> set args" "''--parallels'' \<notin> set args"
    using "2.prems"(1,2) by (metis list.set_intros(2))+
  have "arg \<noteq> ''-p''" "arg \<noteq> ''--parallels''"
    using "2.prems"(1,2) by (metis list.set_intros(1))+
  then have np: "arg \<notin> set parallels_flags"
    by (simp add: parallels_flags_def)
  show ?case
  proof (cases "startswith arg ''-''")
    case False
    then have "snd (parse_args script args (cfg\<lparr>cfg_statements := cfg_statements cfg @ [arg]\<rparr>))
        = Inr c"
      using "2.prems"(3) by simp
    with "2.IH"(3) [OF False rest] show ?thesis by simp
  next
    case opt: True
    show ?thesis
    proof (cases "arg \<in> set help_flags")
      case True
      with opt "2.prems"(3) show ?thesis
        by (simp add: help_fn_def emit_def py_raise_def)
    next
      case nh: False
      show ?thesis
      proof (cases "arg \<in> set times_flags")
        case False
        with opt nh np "2.prems"(3) show ?thesis
          by (simp add: emit_def py_raise_def)
      next
        case times: True
        from opt nh times "2.prems"(3) obtain v rest' n where
          args: "args = v # rest'" and n: "int_of_str v = Inr n"
          and run: "snd (parse_args script rest' (cfg\<lparr>cfg_run_count := n\<rparr>)) = Inr c"
          by (simp add: py_raise_def split: list.splits sum.splits)
        have "''-p'' \<notin> set rest'" "''--parallels'' \<notin> set rest'"
          using rest args by simp_all
        from "2.IH"(1) [OF opt nh times args n this run] show ?thesis by simp
      qed
    qed
  qed
qed

lemma parse_args_append:
  "snd (parse_args script pre cfg) = Inr c \<Longrightarrow>
   parse_args script (pre @ rest) cfg = parse_args script rest c"
proof (induction script pre cfg rule: parse_args.induct)
  case (1 script cfg)
  then show ?case by (simp add: ret_def)
next
  case (2 script arg args cfg)
  then show ?case
    by (simp add: help_fn_def emit_def py_raise_def split: if_splits list.splits sum.splits)
qed

lemma main_setup_config:
  assumes "main_setup e argv = (tr, Inr cfg)"
  obtains c where "snd (parse_args (argv ! 0) (drop 1 argv) initial_config) = Inr c"
    and "cfg_run_count cfg = cfg_run_count c" and "cfg_parallels cfg = cfg_parallels c"
proof -
  from assms have "snd (main_setup e argv) = Inr cfg" by simp
  then obtain script c where
    "getitem argv 0 = Inr script"
    and c: "snd (parse_args script (drop 1 argv) initial_config) = Inr c"
    and rest: "snd (if cfg_statements c = [] then
       then_do (emit [Print ''No statements specified, using defaults'']) (\<lambda>_.
       then_do (lift (default_node_id e)) (\<lambda>node_id.
       ret (c\<lparr>cfg_statements := default_statements node_id\<rparr>)))
     else ret c) = Inr cfg"
    unfolding main_setup_def
    by (auto simp: snd_then_do_Inr lift_def emit_def)
  then have script: "script = argv ! 0"
    by (simp add: getitem_def Let_def split: if_splits)
  from rest have "cfg_run_count cfg = cfg_run_count c \<and> cfg_parallels cfg = cfg_parallels c"
    by (auto simp: snd_then_do_Inr lift_def emit_def ret_def split: if_splits)
  with c script that show ?thesis by blast
qed

text \<open>
  Claim C6. Whenever the part of \<^verbatim>\<open>main\<close> before the loops completes: if neither \<^verbatim>\<open>-x\<close> nor
  \<^verbatim>\<open>--times\<close> is among the arguments, the run count handed to the loops is 10000, while
  the usage text says \<^verbatim>\<open>(default 2500)\<close>; and if neither \<^verbatim>\<open>-p\<close> nor \<^verbatim>\<open>--parallels\<close> is
  among the arguments, the parallelism values are exactly \<open>[1, 2, 4, 8, 16]\<close>.
\<close>

theorem main_defaults:
  assumes "main_setup e argv = (tr, Inr cfg)"
  shows "(''-x'' \<notin> set (drop 1 argv) \<and> ''--times'' \<notin> set (drop 1 argv)
            \<longrightarrow> cfg_run_count cfg = 10000)
       \<and> (''-p'' \<notin> set (drop 1 argv) \<and> ''--parallels'' \<notin> set (drop 1 argv)
            \<longrightarrow> cfg_parallels cfg = [1, 2, 4, 8, 16])
       \<and> ''                         (default 2500)'' \<in> set (usage_lines script)"
proof -
  from assms obtain c where
    c: "snd (parse_args (argv ! 0) (drop 1 argv) initial_config) = Inr c"
    and eq: "cfg_run_count cfg = cfg_run_count c" "cfg_parallels cfg = cfg_parallels c"
    by (rule main_setup_config)
  have r: "cfg_run_count cfg = 10000"
    if "''-x'' \<notin> set (drop 1 argv)" "''--times'' \<notin> set (drop 1 argv)"
    using parse_args_run_count [OF that c] eq by (simp add: initial_config_def)
  have p: "cfg_parallels cfg = [1, 2, 4, 8, 16]"
    if "''-p'' \<notin> set (drop 1 argv)" "''--parallels'' \<notin> set (drop 1 argv)"
    using parse_args_parallels [OF that c] eq
    by (simp add: initial_config_def default_parallels_eq)
  have u: "''                         (default 2500)'' \<in> set (usage_lines script)"
    by (simp add: usage_lines_def)
  from r p u show ?thesis by blast
qed

subsection \<open>Argument errors and the help text\<close>

lemma repr_char_plain: "plain_char c \<Longrightarrow> repr_char (CHR 0x27) c = [c]"
  by (auto simp: plain_char_def repr_char_def Let_def)

lemma repr_plain:
  assumes "\<forall>c\<in>set s. plain_char c"
  shows "repr s = [CHR 0x27] @ s @ [CHR 0x27]"
proof -
  have "CHR 0x27 \<notin> set s"
    using assms by (auto simp: plain_char_def)
  moreover have "concat (map (repr_char (CHR 0x27)) s) = s"
    using assms by (induction s) (simp_all add: repr_char_plain)
  ultimately show ?thesis
    by (simp add: repr_def Let_def)
qed

lemma main_setup_Cons:
  assumes "processors (check_output_cpuinfo e) = Inr n"
  shows "main_setup e (script # args) =
     then_do (emit (banner n)) (\<lambda>_.
     then_do (parse_args script args initial_config) (\<lambda>cfg.
     if cfg_statements cfg = [] then
       then_do (emit [Print ''No statements specified, using defaults'']) (\<lambda>_.
       then_do (lift (default_node_id e)) (\<lambda>node_id.
       ret (cfg\<lparr>cfg_statements := default_statements node_id\<rparr>)))
     else ret cfg))"
  by (simp add: main_setup_def assms then_do_lift_Inr getitem_def)

lemma script_run_parse_error:
  assumes "processors (check_output_cpuinfo e) = Inr n"
    and "parse_args script args initial_config = (tr, Inl err)"
  shows "script_run e (script # args) =
     (case err of SystemExit status \<Rightarrow> (banner n @ tr, status)
      | _ \<Rightarrow> (banner n @ tr @ [Traceback err], 1))"
proof -
  have "main_setup e (script # args) = (banner n @ tr, Inl err)"
    unfolding main_setup_Cons [OF assms(1)] assms(2) by (simp add: then_do_emit)
  then have "main e (script # args) = (banner n @ tr, Inl err)"
    by (simp add: main_def)
  then show ?thesis
    by (simp add: script_run_def split: py_error.splits)
qed

lemma parse_args_unknown:
  assumes "startswith flag ''-''" "flag \<notin> set help_flags" "flag \<notin> set times_flags"
    "flag \<notin> set parallels_flags"
  shows "parse_args script (flag # rest) cfg =
     ([Print (''Unknown option '' @ repr flag)], Inl (SystemExit 1))"
  using assms by (simp add: then_do_emit py_raise_def)

lemma parse_args_help:
  assumes "flag \<in> set help_flags"
  shows "parse_args script (flag # rest) cfg = ([Print (USAGE (basename script))], Inl (SystemExit 0))"
proof -
  have "startswith flag ''-''"
    using assms by (auto simp: help_flags_def startswith_def)
  with assms show ?thesis
    by (simp add: help_fn_def then_do_emit py_raise_def)
qed

lemma parse_args_missing_value:
  assumes "flag \<in> set times_flags \<or> flag \<in> set parallels_flags"
  shows "parse_args script [flag] cfg = ([], Inl IndexError)"
proof -
  have "startswith flag ''-''" "flag \<notin> set help_flags"
    using assms by (auto simp: help_flags_def times_flags_def parallels_flags_def startswith_def)
  with assms show ?thesis
    by (auto simp: py_raise_def)
qed

lemma banner_no_Start: "Start i \<notin> set (banner n)"
  by (simp add: banner_def)

lemma script_run_unknown_option:
  assumes "processors (check_output_cpuinfo e) = Inr n"
    and "snd (parse_args script pre initial_config) = Inr cfg"
    and "startswith flag ''-''" "flag \<notin> set help_flags" "flag \<notin> set times_flags"
    "flag \<notin> set parallels_flags"
  shows "script_run e (script # pre @ flag # rest) =
     (banner n @ [Print (''Unknown option '' @ repr flag)], 1)"
proof -
  have "parse_args script (pre @ flag # rest) initial_config =
      ([Print (''Unknown option '' @ repr flag)], Inl (SystemExit 1))"
    unfolding parse_args_append [OF assms(2)] using assms(3-6) by (rule parse_args_unknown)
  from script_run_parse_error [OF assms(1) this] show ?thesis by simp
qed

lemma script_run_missing_value:
  assumes "processors (check_output_cpuinfo e) = Inr n"
    and "snd (parse_args script pre initial_config) = Inr cfg"
    and "flag \<in> set times_flags \<or> flag \<in> set parallels_flags"
  shows "script_run e (script # pre @ [flag]) = (banner n @ [Traceback IndexError], 1)"
proof -
  have "parse_args script (pre @ [flag]) initial_config = ([], Inl IndexError)"
    unfolding parse_args_append [OF assms(2)] using assms(3) by (rule parse_args_missing_value)
  from script_run_parse_error [OF assms(1) this] show ?thesis by simp
qed

lemma script_run_help:
  assumes "processors (check_output_cpuinfo e) = Inr n"
    and "snd (parse_args script pre initial_config) = Inr cfg"
    and "flag \<in> set help_flags"
  shows "script_run e (script # pre @ flag # rest) =
     (banner n @ [Print (USAGE (basename script))], 0)"
proof -
  have "parse_args script (pre @ flag # rest) initial_config =
      ([Print (USAGE (basename script))], Inl (SystemExit 0))"
    unfolding parse_args_append [OF assms(2)] using assms(3) by (rule parse_args_help)
  from script_run_parse_error [OF assms(1) this] show ?thesis by simp
qed

lemma processors_example: "processors (check_output_cpuinfo example_env) = Inr 2"
  by (simp add: example_env_def processors_def strip_def is_space_def startswith_def)

lemma parse_args_Nil: "snd (parse_args script [] initial_config) = Inr initial_config"
  by (simp add: ret_def)

text \<open>
  Claim C8. The subprocess call succeeds with \<open>n\<close> processors counted, and the arguments
  \<open>pre\<close> before the flag are read without an exit or an exception. Then an unknown flag
  (one that starts with \<^verbatim>\<open>-\<close> and is none of the six option names) makes the script print
  \<^verbatim>\<open>Unknown option\<close> followed by the \<^verbatim>\<open>repr\<close> of the flag, which is the flag between single
  quotes when the flag has plain characters only, and exit with status 1. A flag among
  \<^verbatim>\<open>-x\<close>, \<^verbatim>\<open>--times\<close>, \<^verbatim>\<open>-p\<close>, \<^verbatim>\<open>--parallels\<close> that is the last argument makes
  \<^verbatim>\<open>args.pop(0)\<close> raise \<^verbatim>\<open>IndexError\<close>, which is reported as a traceback, and the status is 1.
  In both cases the trace holds nothing but the banner and the report: no worker is
  started.
\<close>

theorem argument_errors:
  assumes "processors (check_output_cpuinfo e) = Inr n"
    and "snd (parse_args script pre initial_config) = Inr cfg"
  shows "(startswith flag ''-'' \<and> flag \<notin> set help_flags \<and> flag \<notin> set times_flags
           \<and> flag \<notin> set parallels_flags \<longrightarrow>
            script_run e (script # pre @ flag # rest) =
              (banner n @ [Print (''Unknown option '' @ repr flag)], 1)
          \<and> (\<forall>i. Start i \<notin> set (fst (script_run e (script # pre @ flag # rest))))
          \<and> ((\<forall>c\<in>set flag. plain_char c) \<longrightarrow> repr flag = [CHR 0x27] @ flag @ [CHR 0x27]))
       \<and> (flag \<in> set times_flags \<or> flag \<in> set parallels_flags \<longrightarrow>
            script_run e (script # pre @ [flag]) = (banner n @ [Traceback IndexError], 1)
          \<and> (\<forall>i. Start i \<notin> set (fst (script_run e (script # pre @ [flag])))))"
proof -
  have unknown: "script_run e (script # pre @ flag # rest) =
              (banner n @ [Print (''Unknown option '' @ repr flag)], 1)"
    if "startswith flag ''-''" "flag \<notin> set help_flags" "flag \<notin> set times_flags"
      "flag \<notin> set parallels_flags"
    using assms that by (rule script_run_unknown_option)
  have missing: "script_run e (script # pre @ [flag]) = (banner n @ [Traceback IndexError], 1)"
    if "flag \<in> set times_flags \<or> flag \<in> set parallels_flags"
    using assms that by (rule script_run_missing_value)
  show ?thesis
    using unknown missing repr_plain [of flag] by (simp add: banner_no_Start)
qed

theorem argument_errors_witness:
  "processors (check_output_cpuinfo example_env) = Inr 2
   \<and> snd (parse_args ''bench.py'' [] initial_config) = Inr initial_config
   \<and> script_run example_env [''bench.py'', ''--bogus''] =
       (banner 2 @ [Print (''Unknown option '' @ [CHR 0x27] @ ''--bogus'' @ [CHR 0x27])], 1)
   \<and> script_run example_env [''bench.py'', ''--times''] = (banner 2 @ [Traceback IndexError], 1)"
proof -
  have bogus: "startswith ''--bogus'' ''-'' \<and> ''--bogus'' \<notin> set help_flags
      \<and> ''--bogus'' \<notin> set times_flags \<and> ''--bogus'' \<notin> set parallels_flags"
    by (simp add: startswith_def help_flags_def times_flags_def parallels_flags_def)
  have plain: "\<forall>c\<in>set ''--bogus''. plain_char c"
    by (simp add: plain_char_def)
  have times: "''--times'' \<in> set times_flags \<or> ''--times'' \<in> set parallels_flags"
    by (simp add: times_flags_def)
  from argument_errors [OF processors_example parse_args_Nil,
      where script = "''bench.py''" and flag = "''--bogus''" and rest = "[]"] bogus plain
  have one: "script_run example_env [''bench.py'', ''--bogus''] =
       (banner 2 @ [Print (''Unknown option '' @ [CHR 0x27] @ ''--bogus'' @ [CHR 0x27])], 1)"
    by simp
  from argument_errors [OF processors_example parse_args_Nil,
      where script = "''bench.py''" and flag = "''--times''" and rest = "[]"] times
  have two: "script_run example_env [''bench.py'', ''--times''] =
       (banner 2 @ [Traceback IndexError], 1)"
    by simp
  from processors_example parse_args_Nil one two show ?thesis by simp
qed

text \<open>
  Claim C7 fails for \<^verbatim>\<open>-?\<close>. The usage text announces \<^verbatim>\<open>-? --help\<close>, the option loop tests
  for \<^verbatim>\<open>-h\<close> and \<^verbatim>\<open>--help\<close>: run with \<^verbatim>\<open>-?\<close> the script prints \<^verbatim>\<open>Unknown option '-?'\<close> and
  exits with status 1, where \<^verbatim>\<open>--help\<close> prints the usage text and exits with status 0
  (\<open>script_run_help\<close> above shows the latter for \<^verbatim>\<open>-h\<close> and \<^verbatim>\<open>--help\<close> in general).
\<close>

theorem help_question_mark_rejected:
  "script_run example_env [''bench.py'', ''-?''] =
     (banner 2 @ [Print (''Unknown option '' @ [CHR 0x27] @ ''-?'' @ [CHR 0x27])], 1)
   \<and> script_run example_env [''bench.py'', ''--help''] =
     (banner 2 @ [Print (USAGE ''bench.py'')], 0)
   \<and> ''  -? --help              display this help text'' \<in> set (usage_lines ''bench.py'')"
proof -
  have q: "startswith ''-?'' ''-''" "''-?'' \<notin> set help_flags" "''-?'' \<notin> set times_flags"
    "''-?'' \<notin> set parallels_flags"
    by (simp_all add: startswith_def help_flags_def times_flags_def parallels_flags_def)
  have "\<forall>c\<in>set ''-?''. plain_char c"
    by (simp add: plain_char_def)
  then have r: "repr ''-?'' = [CHR 0x27] @ ''-?'' @ [CHR 0x27]"
    by (rule repr_plain)
  have one: "script_run example_env [''bench.py'', ''-?''] =
     (banner 2 @ [Print (''Unknown option '' @ [CHR 0x27] @ ''-?'' @ [CHR 0x27])], 1)"
    using script_run_unknown_option [OF processors_example parse_args_Nil q,
        where script = "''bench.py''" and rest = "[]"] r
    by simp
  have h: "''--help'' \<in> set help_flags"
    by (simp add: help_flags_def)
  have two: "script_run example_env [''bench.py'', ''--help''] =
     (banner 2 @ [Print (USAGE ''bench.py'')], 0)"
    using script_run_help [OF processors_example parse_args_Nil h,
        where script = "''bench.py''" and rest = "[]"]
    by (simp add: basename_def)
  have three: "''  -? --help              display this help text''
      \<in> set (usage_lines ''bench.py'')"
    by (simp add: usage_lines_def)
  from one two three show ?thesis by simp
qed

text \<open>An instance of the theorem of claim C6: one statement and no option.\<close>

theorem main_defaults_witness:
  "\<exists>tr cfg. main_setup example_env [''bench.py'', ''RETURN 1''] = (tr, Inr cfg)
     \<and> ''-x'' \<notin> set (drop 1 [''bench.py'', ''RETURN 1''])
     \<and> ''--times'' \<notin> set (drop 1 [''bench.py'', ''RETURN 1''])
     \<and> ''-p'' \<notin> set (drop 1 [''bench.py'', ''RETURN 1''])
     \<and> ''--parallels'' \<notin> set (drop 1 [''bench.py'', ''RETURN 1''])
     \<and> cfg_run_count cfg = 10000 \<and> cfg_parallels cfg = [1, 2, 4, 8, 16]"
proof -
  have "snd (main_setup example_env [''bench.py'', ''RETURN 1'']) =
      Inr (initial_config\<lparr>cfg_statements := [''RETURN 1'']\<rparr>)"
    unfolding main_setup_Cons [OF processors_example]
    by (simp add: then_do_emit startswith_def ret_def initial_config_def)
  then obtain tr cfg where
    run: "main_setup example_env [''bench.py'', ''RETURN 1''] = (tr, Inr cfg)"
    by (metis prod.collapse)
  have absent: "''-x'' \<notin> set (drop 1 [''bench.py'', ''RETURN 1''])"
    "''--times'' \<notin> set (drop 1 [''bench.py'', ''RETURN 1''])"
    "''-p'' \<notin> set (drop 1 [''bench.py'', ''RETURN 1''])"
    "''--parallels'' \<notin> set (drop 1 [''bench.py'', ''RETURN 1''])"
    by simp_all
  from main_defaults [OF run, of "''bench.py''"] absent
  have "cfg_run_count cfg = 10000 \<and> cfg_parallels cfg = [1, 2, 4, 8, 16]"
    by blast
  with run absent show ?thesis by blast
qed

section \<open>Properties of the two loops\<close>

lemma concat_map_concat:
  "concat (map F (concat (map G xs))) = concat (map (\<lambda>x. concat (map F (G x))) xs)"
  by (induction xs) simp_all

lemma schedule_product:
  "map (\<lambda>(i, j, s, p). (s, p)) (schedule statements parallels) = List.product statements parallels"
proof -
  have inner: "map (\<lambda>x. (s, snd x)) (enumerate k ps) = map (Pair s) ps"
    for k and s :: string and ps :: "int list"
    by (induction ps arbitrary: k) simp_all
  have outer: "concat (map (\<lambda>x. map (Pair (snd x)) parallels) (enumerate k ss))
      = List.product ss parallels" for k and ss :: "string list"
    by (induction ss arbitrary: k) simp_all
  have "map (\<lambda>(i, j, s, p). (s, p)) (schedule statements parallels) =
      concat (map (\<lambda>x. map (Pair (snd x)) parallels) (enumerate 0 statements))"
    unfolding schedule_def map_concat map_map
    by (simp add: comp_def case_prod_unfold inner)
  then show ?thesis by (simp only: outer)
qed

lemma length_schedule:
  "length (schedule statements parallels) = length statements * length parallels"
  using arg_cong [OF schedule_product, of length statements parallels]
  by simp

lemma main_loop_trace:
  assumes "\<forall>(i, j, s, p)\<in>set (schedule (cfg_statements cfg) (cfg_parallels cfg)).
             \<exists>agg. snd (run_all (batch_of e i j) p (cfg_run_count cfg) s) = Inr agg"
  shows "main_loop e cfg =
     (concat (map (\<lambda>(i, j, s, p). fst (run_all (batch_of e i j) p (cfg_run_count cfg) s))
        (schedule (cfg_statements cfg) (cfg_parallels cfg))), Inr ())"
proof -
  let ?call = "\<lambda>i s (j, p). then_do (run_all (batch_of e i j) p (cfg_run_count cfg) s) (\<lambda>_. ret ())"
  let ?inner = "\<lambda>(i, s). for_loop (?call i s) (enumerate 0 (cfg_parallels cfg))"
  have call: "snd (?call i s jp) = Inr ()
      \<and> fst (?call i s jp) = fst (run_all (batch_of e i (fst jp)) (snd jp) (cfg_run_count cfg) s)"
    if "(i, s) \<in> set (enumerate 0 (cfg_statements cfg))"
      and "jp \<in> set (enumerate 0 (cfg_parallels cfg))" for i s jp
  proof -
    have "(i, fst jp, s, snd jp) \<in> set (schedule (cfg_statements cfg) (cfg_parallels cfg))"
      using that unfolding schedule_def by force
    with assms obtain agg where
      "snd (run_all (batch_of e i (fst jp)) (snd jp) (cfg_run_count cfg) s) = Inr agg"
      by fastforce
    then show ?thesis
      by (simp add: case_prod_unfold snd_then_do_Inr fst_then_do ret_def)
  qed
  have inner: "?inner is = (concat (map (\<lambda>jp.
        fst (run_all (batch_of e (fst is) (fst jp)) (snd jp) (cfg_run_count cfg) (snd is)))
        (enumerate 0 (cfg_parallels cfg))), Inr ())"
    if "is \<in> set (enumerate 0 (cfg_statements cfg))" for "is"
  proof -
    obtain i s where "is": "is = (i, s)" by (cases "is")
    have "for_loop (?call i s) (enumerate 0 (cfg_parallels cfg)) =
        (concat (map (\<lambda>jp. fst (?call i s jp)) (enumerate 0 (cfg_parallels cfg))), Inr ())"
      using call that "is" by (intro for_loop_trace) blast
    also have "map (\<lambda>jp. fst (?call i s jp)) (enumerate 0 (cfg_parallels cfg)) =
        map (\<lambda>jp. fst (run_all (batch_of e i (fst jp)) (snd jp) (cfg_run_count cfg) s))
          (enumerate 0 (cfg_parallels cfg))"
      using call that "is" by (intro map_cong refl) blast
    finally show ?thesis by (simp add: "is")
  qed
  have "main_loop e cfg = for_loop ?inner (enumerate 0 (cfg_statements cfg))"
    by (simp add: main_loop_def)
  also have "\<dots> = (concat (map (\<lambda>is. fst (?inner is)) (enumerate 0 (cfg_statements cfg))), Inr ())"
    using inner by (intro for_loop_trace) simp
  also have "map (\<lambda>is. fst (?inner is)) (enumerate 0 (cfg_statements cfg)) =
      map (\<lambda>is. concat (map (\<lambda>jp.
        fst (run_all (batch_of e (fst is) (fst jp)) (snd jp) (cfg_run_count cfg) (snd is)))
        (enumerate 0 (cfg_parallels cfg)))) (enumerate 0 (cfg_statements cfg))"
    using inner by (intro map_cong refl) simp
  also have "concat \<dots> =
      concat (map (\<lambda>(i, j, s, p). fst (run_all (batch_of e i j) p (cfg_run_count cfg) s))
        (schedule (cfg_statements cfg) (cfg_parallels cfg)))"
    unfolding schedule_def concat_map_concat
    by (simp add: case_prod_unfold comp_def)
  finally show ?thesis .
qed

lemma printed_runs_append: "printed_runs (xs @ ys) = printed_runs xs @ printed_runs ys"
  by (induction xs rule: printed_runs.induct) simp_all

lemma printed_runs_concat: "printed_runs (concat xss) = concat (map printed_runs xss)"
  by (induction xss) (simp_all add: printed_runs_append)

lemma printed_runs_Start: "printed_runs (map Start is) = []"
  by (induction "is") simp_all

lemma printed_runs_Join: "printed_runs (map Join is) = []"
  by (induction "is") simp_all

lemma printed_runs_for_loop:
  "\<forall>x. printed_runs (fst (body x)) = [] \<Longrightarrow> printed_runs (fst (for_loop body xs)) = []"
  by (induction xs) (simp_all add: ret_def fst_then_do printed_runs_append split: sum.splits)

lemma printed_runs_print_row: "printed_runs (fst (print_row ov nw wt p)) = []"
  by (simp add: print_row_def fst_then_do lift_def emit_def printed_runs_append
      split: sum.splits)

lemma printed_runs_print_bench: "printed_runs (fst (print_bench ov nw wt)) = []"
  by (simp add: print_bench_def fst_then_do emit_def printed_runs_append
      printed_runs_for_loop printed_runs_print_row)

lemma printed_runs_run_all:
  assumes "snd (run_all b P R s) = Inr agg"
  shows "printed_runs (fst (run_all b P R s)) = [(R, P)]"
  unfolding run_all_trace [OF assms]
  by (simp add: printed_runs_append printed_runs_Start printed_runs_Join
      printed_runs_print_bench)

lemma printed_runs_main_loop:
  assumes "\<forall>(i, j, s, p)\<in>set (schedule (cfg_statements cfg) (cfg_parallels cfg)).
             \<exists>agg. snd (run_all (batch_of e i j) p (cfg_run_count cfg) s) = Inr agg"
  shows "printed_runs (fst (main_loop e cfg)) =
     map (\<lambda>(s, p). (cfg_run_count cfg, p)) (List.product (cfg_statements cfg) (cfg_parallels cfg))"
proof -
  let ?sched = "schedule (cfg_statements cfg) (cfg_parallels cfg)"
  let ?R = "cfg_run_count cfg"
  have "printed_runs (fst (main_loop e cfg)) =
      concat (map (\<lambda>x. printed_runs
        (case x of (i, j, s, p) \<Rightarrow> fst (run_all (batch_of e i j) p ?R s))) ?sched)"
    unfolding main_loop_trace [OF assms] by (simp add: printed_runs_concat comp_def)
  also have "map (\<lambda>x. printed_runs
        (case x of (i, j, s, p) \<Rightarrow> fst (run_all (batch_of e i j) p ?R s))) ?sched =
      map (\<lambda>x. [case x of (i, j, s, p) \<Rightarrow> (?R, p)]) ?sched"
  proof (intro map_cong refl)
    fix x assume x: "x \<in> set ?sched"
    obtain i j s p where eq: "x = (i, j, s, p)" by (cases x) auto
    with assms x obtain agg where "snd (run_all (batch_of e i j) p ?R s) = Inr agg"
      by fastforce
    then show "printed_runs (case x of (i, j, s, p) \<Rightarrow> fst (run_all (batch_of e i j) p ?R s))
        = [case x of (i, j, s, p) \<Rightarrow> (?R, p)]"
      by (simp add: eq printed_runs_run_all)
  qed
  also have "concat \<dots> = map (\<lambda>(i, j, s, p). (?R, p)) ?sched"
    by (rule concat_map_singleton)
  also have "\<dots> = map (\<lambda>(s, p). (?R, p)) (map (\<lambda>(i, j, s, p). (s, p)) ?sched)"
    by (simp add: case_prod_unfold comp_def)
  finally show ?thesis by (simp only: schedule_product)
qed

lemma sorted_default_parallels: "sorted default_parallels"
  by (simp add: default_parallels_eq)

subsection \<open>The order of the benchmark runs\<close>

text \<open>
  Claim C9, as amended. Provided every call of \<^const>\<open>run_all\<close> returns, the two loops call it
  once for each pair of a statement and a parallelism value, the statements in the outer
  loop and, for each statement, the parallelism values in the order of their list (the
  order in which they were given; the default list is ascending). The trace of the loops
  is the concatenation of the traces of the calls in that order, so each result is
  printed before the next call starts; its summary lines name the run count and the
  parallelism values in the order of \<^const>\<open>List.product\<close> of the two lists.
\<close>

theorem main_loop_order:
  assumes "\<forall>(i, j, s, p)\<in>set (schedule (cfg_statements cfg) (cfg_parallels cfg)).
             \<exists>agg. snd (run_all (batch_of e i j) p (cfg_run_count cfg) s) = Inr agg"
  shows "main_loop e cfg =
           (concat (map (\<lambda>(i, j, s, p). fst (run_all (batch_of e i j) p (cfg_run_count cfg) s))
              (schedule (cfg_statements cfg) (cfg_parallels cfg))), Inr ())
       \<and> map (\<lambda>(i, j, s, p). (s, p)) (schedule (cfg_statements cfg) (cfg_parallels cfg))
           = List.product (cfg_statements cfg) (cfg_parallels cfg)
       \<and> printed_runs (fst (main_loop e cfg)) =
           map (\<lambda>(s, p). (cfg_run_count cfg, p))
             (List.product (cfg_statements cfg) (cfg_parallels cfg))
       \<and> sorted default_parallels"
  using main_loop_trace [OF assms] schedule_product printed_runs_main_loop [OF assms]
    sorted_default_parallels
  by simp

lemma example_batch_returns:
  "0 < P \<Longrightarrow> 0 < R \<Longrightarrow> \<exists>agg. snd (run_all example_batch P R s) = Inr agg"
  using run_all_returns [of P R example_batch s]
  by (fastforce simp: example_batch_def)

theorem main_loop_order_witness:
  "schedule [''RETURN 1''] [1, 2] = [(0, 0, ''RETURN 1'', 1), (0, 1, ''RETURN 1'', 2)]
   \<and> (\<exists>agg. snd (run_all example_batch 1 1 ''RETURN 1'') = Inr agg)
   \<and> (\<exists>agg. snd (run_all example_batch 2 1 ''RETURN 1'') = Inr agg)
   \<and> main_loop example_env
        \<lparr>cfg_run_count = 1, cfg_statements = [''RETURN 1''], cfg_parallels = [1, 2]\<rparr>
      = (fst (run_all example_batch 1 1 ''RETURN 1'') @ fst (run_all example_batch 2 1 ''RETURN 1''),
         Inr ())
   \<and> printed_runs (fst (main_loop example_env
        \<lparr>cfg_run_count = 1, cfg_statements = [''RETURN 1''], cfg_parallels = [1, 2]\<rparr>))
      = [(1, 1), (1, 2)]"
proof -
  let ?cfg = "\<lparr>cfg_run_count = 1, cfg_statements = [''RETURN 1''], cfg_parallels = [1, 2]\<rparr>"
  have sched: "schedule [''RETURN 1''] [1, 2] = [(0, 0, ''RETURN 1'', 1), (0, 1, ''RETURN 1'', 2)]"
    by (simp add: schedule_def)
  have r1: "\<exists>agg. snd (run_all example_batch 1 1 ''RETURN 1'') = Inr agg"
    and r2: "\<exists>agg. snd (run_all example_batch 2 1 ''RETURN 1'') = Inr agg"
    by (rule example_batch_returns; simp)+
  have env: "batch_of example_env = (\<lambda>i j. example_batch)"
    by (simp add: example_env_def)
  have hyp: "\<forall>(i, j, s, p)\<in>set (schedule (cfg_statements ?cfg) (cfg_parallels ?cfg)).
             \<exists>agg. snd (run_all (batch_of example_env i j) p (cfg_run_count ?cfg) s) = Inr agg"
    using r1 r2 by (simp add: sched env)
  note order = main_loop_order [OF hyp]
  have trace: "main_loop example_env ?cfg =
      (fst (run_all example_batch 1 1 ''RETURN 1'') @ fst (run_all example_batch 2 1 ''RETURN 1''),
       Inr ())"
    using order [THEN conjunct1] by (simp add: sched env)
  have runs: "printed_runs (fst (main_loop example_env ?cfg)) = [(1, 1), (1, 2)]"
    using order [THEN conjunct2, THEN conjunct2, THEN conjunct1] by simp
  from sched r1 r2 trace runs show ?thesis by blast
qed

lemma script_run_returns:
  "main_setup e argv = (tr1, Inr cfg) \<Longrightarrow> main_loop e cfg = (tr2, Inr ()) \<Longrightarrow>
     script_run e argv = (tr1 @ tr2, 0)"
  by (simp add: main_def script_run_def)

lemma printed_runs_banner: "printed_runs (banner n) = []"
  by (simp add: banner_def)

text \<open>
  Claim C9 as stated has the parallelism values taken in ascending order. With the
  arguments \<^verbatim>\<open>-p 2,1 "RETURN 1"\<close> the script runs to the end with status 0 and prints the
  summary of the run with 2 processes before that of the run with 1 process.
\<close>

theorem parallels_order_counterexample:
  "snd (script_run example_env [''bench.py'', ''-p'', ''2,1'', ''RETURN 1'']) = 0
   \<and> printed_runs (fst (script_run example_env [''bench.py'', ''-p'', ''2,1'', ''RETURN 1'']))
       = [(10000, 2), (10000, 1)]
   \<and> \<not> sorted [2, 1 :: int]"
proof -
  let ?cfg = "\<lparr>cfg_run_count = 10000, cfg_statements = [''RETURN 1''], cfg_parallels = [2, 1]\<rparr>"
  have ints: "int_of_str ''2'' = Inr 2" "int_of_str ''1'' = Inr 1"
    by (simp_all add: int_of_str_def is_int_space_def is_digit_def digit_value_def
        int_max_str_digits_def Let_def)
  have parsed: "parse_args ''bench.py'' [''-p'', ''2,1'', ''RETURN 1''] initial_config
      = ([], Inr ?cfg)"
    by (simp add: ints startswith_def help_flags_def times_flags_def parallels_flags_def
        ret_def initial_config_def)
  have start: "main_setup example_env [''bench.py'', ''-p'', ''2,1'', ''RETURN 1'']
      = (banner 2, Inr ?cfg)"
    unfolding main_setup_Cons [OF processors_example] parsed
    by (simp add: then_do_emit ret_def)
  have sched: "schedule [''RETURN 1''] [2, 1] = [(0, 0, ''RETURN 1'', 2), (0, 1, ''RETURN 1'', 1)]"
    by (simp add: schedule_def)
  have env: "batch_of example_env = (\<lambda>i j. example_batch)"
    by (simp add: example_env_def)
  have r1: "\<exists>agg. snd (run_all example_batch 2 10000 ''RETURN 1'') = Inr agg"
    and r2: "\<exists>agg. snd (run_all example_batch 1 10000 ''RETURN 1'') = Inr agg"
    by (rule example_batch_returns; simp)+
  have hyp: "\<forall>(i, j, s, p)\<in>set (schedule (cfg_statements ?cfg) (cfg_parallels ?cfg)).
             \<exists>agg. snd (run_all (batch_of example_env i j) p (cfg_run_count ?cfg) s) = Inr agg"
    using r1 r2 by (simp add: sched env)
  have loop: "main_loop example_env ?cfg = (fst (main_loop example_env ?cfg), Inr ())"
    using main_loop_trace [OF hyp] by simp
  have runs: "printed_runs (fst (main_loop example_env ?cfg)) = [(10000, 2), (10000, 1)]"
    using printed_runs_main_loop [OF hyp] by simp
  have "script_run example_env [''bench.py'', ''-p'', ''2,1'', ''RETURN 1'']
      = (banner 2 @ fst (main_loop example_env ?cfg), 0)"
    using start loop by (rule script_run_returns)
  then show ?thesis
    using runs by (simp add: printed_runs_append printed_runs_banner)
qed

end
